theory Spec2Isabelle
  imports Complex_Main "HOL-Library.AList"
begin

section \<open>Data model\<close>

text \<open>
  The types of \<^verbatim>\<open>enrichmentHandler.ts\<close> and \<^verbatim>\<open>common/types\<close>. A JavaScript
  \<^verbatim>\<open>number\<close> that arrives in a JSON response is a finite double, hence a rational;
  \<^verbatim>\<open>T | null\<close> and optional fields are \<open>option\<close>. Field names are those of the
  source, prefixed where two types share a name. Of the library types
  \<^verbatim>\<open>MetadataType\<close> and \<^verbatim>\<open>SourceComponent\<close> only what the code reads is kept:
  the name of a type, and of a component its \<^verbatim>\<open>fullName\<close>, \<^verbatim>\<open>name\<close>, \<^verbatim>\<open>type\<close>,
  \<^verbatim>\<open>xml\<close> path and the paths that \<^verbatim>\<open>walkContent()\<close> yields.
\<close>

type_synonym number = rat

record MetadataType =
  mt_name :: string

record SourceComponent =
  fullName :: "string option"
  sc_name :: "string option"
  sc_type :: "MetadataType option"
  xml :: "string option"
  walkContent :: "string list"

record MetadataTypeAndMetadataName =
  mn_type :: string
  mn_componentName :: "string option"

record ComponentEnrichmentStatus =
  st_type :: string
  st_componentName :: "string option"
  st_message :: "string option"

record ContentBundleFile =
  filename :: string
  mimeType :: string
  content :: string
  encoding :: string

record ContentBundle =
  resourceName :: string
  files :: "(string \<times> ContentBundleFile) list"

record EnrichmentRequestBody =
  contentBundles :: "ContentBundle list"
  body_metadataType :: string
  maxTokens :: nat

record EnrichmentMetadata =
  durationMs :: number
  failureCount :: number
  successCount :: number
  timestamp :: string

record EnrichmentResult =
  resourceId :: string
  res_resourceName :: string
  metadataType :: string
  modelUsed :: string
  description :: string
  descriptionScore :: number

record EnrichMetadataResult =
  metadata :: EnrichmentMetadata
  results :: "EnrichmentResult list"

record EnrichmentRequestRecord =
  componentName :: string
  componentType :: "MetadataType option"
  requestBody :: EnrichmentRequestBody
  response :: "EnrichMetadataResult option"
  message :: "string option"

section \<open>Metrics (\<^verbatim>\<open>enrichmentMetrics.ts\<close>)\<close>

record Bucket =
  count :: nat
  components :: "ComponentEnrichmentStatus list"

record EnrichmentMetrics =
  success :: Bucket
  fail :: Bucket
  skipped :: Bucket
  total :: nat

text \<open>The constructor: three empty buckets and a zero total.\<close>

definition newEnrichmentMetrics :: EnrichmentMetrics where
  "newEnrichmentMetrics =
     \<lparr>success = \<lparr>count = 0, components = []\<rparr>,
      fail = \<lparr>count = 0, components = []\<rparr>,
      skipped = \<lparr>count = 0, components = []\<rparr>,
      total = 0\<rparr>"

text \<open>\<^verbatim>\<open>push\<close>, \<^verbatim>\<open>count++\<close>, \<^verbatim>\<open>total++\<close>, on the bucket the method names.\<close>

definition push_component :: "Bucket \<Rightarrow> ComponentEnrichmentStatus \<Rightarrow> Bucket" where
  "push_component b c = \<lparr>count = Suc (count b), components = components b @ [c]\<rparr>"

definition addSuccessComponent ::
  "EnrichmentMetrics \<Rightarrow> ComponentEnrichmentStatus \<Rightarrow> EnrichmentMetrics" where
  "addSuccessComponent m c = m\<lparr>success := push_component (success m) c, total := Suc (total m)\<rparr>"

definition addFailComponent ::
  "EnrichmentMetrics \<Rightarrow> ComponentEnrichmentStatus \<Rightarrow> EnrichmentMetrics" where
  "addFailComponent m c = m\<lparr>fail := push_component (fail m) c, total := Suc (total m)\<rparr>"

definition addSkippedComponent ::
  "EnrichmentMetrics \<Rightarrow> ComponentEnrichmentStatus \<Rightarrow> EnrichmentMetrics" where
  "addSkippedComponent m c = m\<lparr>skipped := push_component (skipped m) c, total := Suc (total m)\<rparr>"

text \<open>
  The body of the \<^verbatim>\<open>for\<close> loop of \<^verbatim>\<open>createEnrichmentMetrics\<close> up to the bucket
  choice: the kind recorded for the entry (the record's own type first, the first
  result's \<^verbatim>\<open>metadataType\<close> otherwise, else the empty string) and the message
  (\<^verbatim>\<open>record.message ?? (record.response ? '' : 'Enrichment request failed')\<close>).
\<close>

definition statusMetadataType :: "EnrichmentRequestRecord \<Rightarrow> string" where
  "statusMetadataType r =
     (case componentType r of
        Some t \<Rightarrow> mt_name t
      | None \<Rightarrow>
          (case response r of
             None \<Rightarrow> []
           | Some resp \<Rightarrow> (case results resp of [] \<Rightarrow> [] | x # _ \<Rightarrow> metadataType x)))"

definition statusMessage :: "EnrichmentRequestRecord \<Rightarrow> string" where
  "statusMessage r =
     (case message r of
        Some m \<Rightarrow> m
      | None \<Rightarrow> (case response r of Some _ \<Rightarrow> [] | None \<Rightarrow> ''Enrichment request failed''))"

definition componentStatus :: "EnrichmentRequestRecord \<Rightarrow> ComponentEnrichmentStatus" where
  "componentStatus r =
     \<lparr>st_type = statusMetadataType r,
      st_componentName = Some (componentName r),
      st_message = Some (statusMessage r)\<rparr>"

text \<open>The bucket choice, \<^verbatim>\<open>if (record.response)\<close>, that ends the loop body.\<close>

definition addRecord :: "EnrichmentMetrics \<Rightarrow> EnrichmentRequestRecord \<Rightarrow> EnrichmentMetrics" where
  "addRecord m r =
     (case response r of
        Some _ \<Rightarrow> addSuccessComponent m (componentStatus r)
      | None \<Rightarrow> addFailComponent m (componentStatus r))"

definition createEnrichmentMetrics ::
  "EnrichmentRequestRecord list \<Rightarrow> ComponentEnrichmentStatus list \<Rightarrow> EnrichmentMetrics" where
  "createEnrichmentMetrics enrichmentResults skippedComponents =
     foldl addSkippedComponent (foldl addRecord newEnrichmentMetrics enrichmentResults)
       skippedComponents"

text \<open>The entries a list of records sends to the success and to the fail bucket.\<close>

definition successOf :: "EnrichmentRequestRecord list \<Rightarrow> ComponentEnrichmentStatus list" where
  "successOf rs = map componentStatus (filter (\<lambda>r. response r \<noteq> None) rs)"

definition failOf :: "EnrichmentRequestRecord list \<Rightarrow> ComponentEnrichmentStatus list" where
  "failOf rs = map componentStatus (filter (\<lambda>r. response r = None) rs)"

section \<open>JavaScript strings\<close>

text \<open>
  A string is the UTF-8 encoding of the JavaScript string it stands for, byte by byte.
  Of the \<^verbatim>\<open>String.prototype\<close> methods the code calls, only the ASCII white space
  and the ASCII letters are treated; a character outside ASCII is several bytes here and
  is left as it is.
\<close>

definition isWhiteSpace :: "char \<Rightarrow> bool" where
  "isWhiteSpace c = (c \<in> set [CHR '' '', CHR 0x09, CHR 0x0A, CHR 0x0B, CHR 0x0C, CHR 0x0D])"

definition trim :: "string \<Rightarrow> string" where
  "trim s = rev (dropWhile isWhiteSpace (rev (dropWhile isWhiteSpace s)))"

definition toLowerCase :: "string \<Rightarrow> string" where
  "toLowerCase s =
     map (\<lambda>c. case map_of (zip ''ABCDEFGHIJKLMNOPQRSTUVWXYZ'' ''abcdefghijklmnopqrstuvwxyz'') c of
                Some d \<Rightarrow> d
              | None \<Rightarrow> c) s"

text \<open>
  \<^verbatim>\<open>s.split(sep)\<close> for a one-character separator: never the empty list. \<open>cur\<close> is
  the piece being read, last character first.
\<close>

fun splitFrom :: "char \<Rightarrow> string \<Rightarrow> string \<Rightarrow> string list" where
  "splitFrom sep cur [] = [rev cur]"
| "splitFrom sep cur (c # cs) =
     (if c = sep then rev cur # splitFrom sep [] cs else splitFrom sep (c # cur) cs)"

definition split_str :: "char \<Rightarrow> string \<Rightarrow> string list" where
  "split_str sep s = splitFrom sep [] s"

fun join_str :: "string \<Rightarrow> string list \<Rightarrow> string" where
  "join_str sep [] = []"
| "join_str sep [x] = x"
| "join_str sep (x # y # ys) = x @ sep @ join_str sep (y # ys)"

definition startsWith :: "string \<Rightarrow> string \<Rightarrow> bool" where
  "startsWith s p = (take (length p) s = p)"

definition endsWith :: "string \<Rightarrow> string \<Rightarrow> bool" where
  "endsWith s p = (length p \<le> length s \<and> drop (length s - length p) s = p)"

text \<open>\<^verbatim>\<open>s.includes(sub)\<close>: \<open>sub\<close> occurs in \<open>s\<close> as a contiguous run.\<close>

fun str_includes :: "string \<Rightarrow> string \<Rightarrow> bool" where
  "str_includes [] sub = (sub = [])"
| "str_includes (c # cs) sub = (startsWith (c # cs) sub \<or> str_includes cs sub)"

text \<open>
  \<^verbatim>\<open>s.replace(/\n{3,}/g, '\n\n')\<close>: every maximal run of three or more line feeds
  becomes two; \<open>n\<close> counts the line feeds of the run being read.
\<close>

fun collapseRun :: "nat \<Rightarrow> string \<Rightarrow> string" where
  "collapseRun n [] = replicate (min n 2) (CHR 0x0A)"
| "collapseRun n (c # cs) =
     (if c = CHR 0x0A then collapseRun (Suc n) cs
      else replicate (min n 2) (CHR 0x0A) @ c # collapseRun 0 cs)"

definition collapseBlankLines :: "string \<Rightarrow> string" where
  "collapseBlankLines s = collapseRun 0 s"

section \<open>Paths (\<^verbatim>\<open>node:path\<close>, POSIX flavour)\<close>

text \<open>
  \<^verbatim>\<open>basename\<close> drops trailing slashes and keeps what follows the last remaining
  slash. \<^verbatim>\<open>extname\<close> is the basename from its last dot on, and empty when there is
  no dot, when the only dot opens the basename, or when the basename is \<^verbatim>\<open>..\<close>.
\<close>

definition basename :: "string \<Rightarrow> string" where
  "basename p =
     rev (takeWhile (\<lambda>c. c \<noteq> CHR ''/'') (dropWhile (\<lambda>c. c = CHR ''/'') (rev p)))"

definition extname :: "string \<Rightarrow> string" where
  "extname p =
     (let b = basename p;
          e = rev (takeWhile (\<lambda>c. c \<noteq> CHR ''.'') (rev b))
      in if CHR ''.'' \<notin> set b \<or> length b = Suc (length e) \<or> b = ''..'' then []
         else CHR ''.'' # e)"

definition MIME_TYPES :: "(string \<times> string) list" where
  "MIME_TYPES =
     [(''.js'', ''application/javascript''),
      (''.html'', ''text/html''),
      (''.css'', ''text/css''),
      (''.xml'', ''application/xml''),
      (''.svg'', ''image/svg+xml'')]"

definition getMimeTypeFromExtension :: "string \<Rightarrow> string" where
  "getMimeTypeFromExtension filePath =
     (case map_of MIME_TYPES (toLowerCase (extname filePath)) of
        Some m \<Rightarrow> m
      | None \<Rightarrow> ''application/octet-stream'')"

section \<open>The file system\<close>

text \<open>
  What \<^verbatim>\<open>readFile(path, 'utf-8')\<close> makes of the bytes of a file: every well-formed
  UTF-8 sequence is kept, and every maximal ill-formed run of bytes becomes one
  replacement character U+FFFD, which is the three bytes \<^verbatim>\<open>EF BF BD\<close>. A byte order
  mark is kept. \<open>seen\<close> holds the bytes of the sequence being read, \<open>needed\<close> the
  number of continuation bytes still due, and \<open>lo\<close> and \<open>hi\<close> the range the next one
  must lie in; a byte outside that range ends the run and is read again as a first byte.
\<close>

definition REPLACEMENT :: string where
  "REPLACEMENT = [CHR 0xEF, CHR 0xBF, CHR 0xBD]"

fun utf8From :: "string \<Rightarrow> nat \<Rightarrow> nat \<Rightarrow> nat \<Rightarrow> string \<Rightarrow> string" where
  "utf8From seen needed lo hi [] = (if needed = 0 then [] else REPLACEMENT)"
| "utf8From seen needed lo hi (b # bs) =
     (if needed = 0 then
        (if of_char b < (0x80 :: nat) then b # utf8From [] 0 0x80 0xBF bs
         else if (0xC2 :: nat) \<le> of_char b \<and> of_char b \<le> (0xDF :: nat)
           then utf8From [b] 1 0x80 0xBF bs
         else if of_char b = (0xE0 :: nat) then utf8From [b] 2 0xA0 0xBF bs
         else if of_char b = (0xED :: nat) then utf8From [b] 2 0x80 0x9F bs
         else if (0xE1 :: nat) \<le> of_char b \<and> of_char b \<le> (0xEF :: nat)
           then utf8From [b] 2 0x80 0xBF bs
         else if of_char b = (0xF0 :: nat) then utf8From [b] 3 0x90 0xBF bs
         else if of_char b = (0xF4 :: nat) then utf8From [b] 3 0x80 0x8F bs
         else if (0xF1 :: nat) \<le> of_char b \<and> of_char b \<le> (0xF3 :: nat)
           then utf8From [b] 3 0x80 0xBF bs
         else REPLACEMENT @ utf8From [] 0 0x80 0xBF bs)
      else if lo \<le> of_char b \<and> of_char b \<le> hi then
        (if needed = 1 then seen @ [b] @ utf8From [] 0 0x80 0xBF bs
         else utf8From (seen @ [b]) (needed - 1) 0x80 0xBF bs)
      else REPLACEMENT @ utf8From [] 0 0x80 0xBF (b # bs))"

definition utf8Decode :: "string \<Rightarrow> string" where
  "utf8Decode bytes = utf8From [] 0 0x80 0xBF bytes"

text \<open>
  \<open>fs_content\<close> gives the bytes of each readable path (\<open>None\<close>: the read rejects);
  \<open>fs_writeError\<close> gives the error message of each path whose write rejects.
  \<^verbatim>\<open>readFile(path, 'utf-8')\<close> decodes the bytes; \<^verbatim>\<open>writeFile(path, text, 'utf-8')\<close>
  replaces the content of the file by the encoding of the text, which is the string
  itself. A rejected write is one that is refused when the file is opened, as with
  \<^verbatim>\<open>EACCES\<close>, and leaves the file as it was; a write that fails after the file has
  been truncated is not modelled.
\<close>

record FileSystem =
  fs_content :: "string \<Rightarrow> string option"
  fs_writeError :: "string \<Rightarrow> string option"

definition readFile :: "FileSystem \<Rightarrow> string \<Rightarrow> string option" where
  "readFile fs path = map_option utf8Decode (fs_content fs path)"

definition writeFile :: "FileSystem \<Rightarrow> string \<Rightarrow> string \<Rightarrow> string + FileSystem" where
  "writeFile fs path text =
     (case fs_writeError fs path of
        Some e \<Rightarrow> Inl e
      | None \<Rightarrow> Inr (fs\<lparr>fs_content := (fs_content fs)(path \<mapsto> text)\<rparr>))"

section \<open>Reading component files (\<^verbatim>\<open>fileProcessor.ts\<close>)\<close>

record FileReadResult =
  fr_componentName :: string
  filePath :: string
  fileContents :: string
  fr_mimeType :: string

text \<open>\<^verbatim>\<open>component.fullName ?? component.name\<close>; the callers then test it for truth.\<close>

definition componentNameOf :: "SourceComponent \<Rightarrow> string option" where
  "componentNameOf component =
     (case fullName component of Some n \<Rightarrow> Some n | None \<Rightarrow> sc_name component)"

text \<open>A read error is caught and answered with \<^verbatim>\<open>null\<close>.\<close>

definition readFileMetadata :: "FileSystem \<Rightarrow> string \<Rightarrow> string \<Rightarrow> FileReadResult option" where
  "readFileMetadata fs name path =
     (case readFile fs path of
        None \<Rightarrow> None
      | Some text \<Rightarrow>
          Some \<lparr>fr_componentName = name, filePath = path, fileContents = text,
                fr_mimeType = getMimeTypeFromExtension path\<rparr>)"

text \<open>\<^verbatim>\<open>fileResults.filter((result) => result !== null)\<close>.\<close>

definition nonNull :: "'a option list \<Rightarrow> 'a list" where
  "nonNull xs = List.map_filter (\<lambda>x. x) xs"

definition readComponentFiles :: "FileSystem \<Rightarrow> SourceComponent \<Rightarrow> FileReadResult list" where
  "readComponentFiles fs component =
     (case componentNameOf component of
        None \<Rightarrow> []
      | Some name \<Rightarrow>
          if name = [] then []
          else nonNull (map (readFileMetadata fs name) (walkContent component)))"

text \<open>
  The loop of \<^verbatim>\<open>readComponentXmlFilesInParallel\<close> starts one read for each component
  that has a name and an \<^verbatim>\<open>xml\<close> path; all reads see the file system as it is before
  the merge writes anything.
\<close>

definition xmlReadOf :: "FileSystem \<Rightarrow> SourceComponent \<Rightarrow> FileReadResult option list" where
  "xmlReadOf fs component =
     (case componentNameOf component of
        None \<Rightarrow> []
      | Some name \<Rightarrow>
          (case xml component of
             None \<Rightarrow> []
           | Some path \<Rightarrow>
               if name = [] \<or> path = [] then [] else [readFileMetadata fs name path]))"

definition readComponentXmlFilesInParallel ::
  "FileSystem \<Rightarrow> SourceComponent list \<Rightarrow> FileReadResult list" where
  "readComponentXmlFilesInParallel fs sourceComponents =
     nonNull (concat (map (xmlReadOf fs) sourceComponents))"

definition isMetaXmlFile :: "string \<Rightarrow> bool" where
  "isMetaXmlFile path = endsWith (basename path) ''.js-meta.xml''"

section \<open>Dispatch (\<^verbatim>\<open>enrichmentHandler.ts\<close>)\<close>

definition ENDPOINT_ENRICHMENT :: string where
  "ENDPOINT_ENRICHMENT = ''/services/data/v66.0/metadata-intelligence/enrichments/on-demand''"

text \<open>
  The connection is the remote side: \<^verbatim>\<open>requestPost(url, body)\<close> either resolves with
  the parsed response or rejects, and \<open>Inl\<close> carries the message read off the rejection
  (\<^verbatim>\<open>error instanceof Error ? error.message : String(error)\<close>). What it answers to
  a request depends on that request alone.
\<close>

type_synonym Connection = "string \<Rightarrow> EnrichmentRequestBody \<Rightarrow> string + EnrichMetadataResult"

definition createContentBundleFile :: "FileReadResult \<Rightarrow> ContentBundleFile" where
  "createContentBundleFile file =
     \<lparr>filename = basename (filePath file), mimeType = fr_mimeType file,
      content = fileContents file, encoding = ''PlainText''\<rparr>"

text \<open>An object keyed by file name: a later file of the same name replaces the earlier.\<close>

definition createContentBundle :: "string \<Rightarrow> FileReadResult list \<Rightarrow> ContentBundle" where
  "createContentBundle name fileResults =
     \<lparr>resourceName = name,
      files = foldl (\<lambda>acc file. AList.update (filename (createContentBundleFile file))
                                   (createContentBundleFile file) acc) [] fileResults\<rparr>"

definition createEnrichmentRequestBody :: "ContentBundle \<Rightarrow> EnrichmentRequestBody" where
  "createEnrichmentRequestBody contentBundle =
     \<lparr>contentBundles = [contentBundle], body_metadataType = ''Generic'', maxTokens = 250\<rparr>"

text \<open>
  The callback that \<^verbatim>\<open>createEnrichmentRequestRecords\<close> maps over the components:
  \<^verbatim>\<open>null\<close> for a component without a name or without a readable file.
\<close>

definition createRecord :: "FileSystem \<Rightarrow> SourceComponent \<Rightarrow> EnrichmentRequestRecord option" where
  "createRecord fs component =
     (case componentNameOf component of
        None \<Rightarrow> None
      | Some name \<Rightarrow>
          if name = [] then None
          else if readComponentFiles fs component = [] then None
          else Some \<lparr>componentName = name,
                     componentType = sc_type component,
                     requestBody = createEnrichmentRequestBody
                                     (createContentBundle name (readComponentFiles fs component)),
                     response = None,
                     message = None\<rparr>)"

definition createEnrichmentRequestRecords ::
  "FileSystem \<Rightarrow> SourceComponent list \<Rightarrow> EnrichmentRequestRecord list" where
  "createEnrichmentRequestRecords fs sourceComponents = nonNull (map (createRecord fs) sourceComponents)"

text \<open>
  A promise that has settled: fulfilled with a value, or rejected with a reason, of
  which only the message is read.
\<close>

datatype 'a PromiseSettledResult = Fulfilled 'a | Rejected string

definition sendEnrichmentRequest ::
  "Connection \<Rightarrow> EnrichmentRequestRecord \<Rightarrow> EnrichmentRequestRecord PromiseSettledResult" where
  "sendEnrichmentRequest connection r =
     (case connection ENDPOINT_ENRICHMENT (requestBody r) of
        Inr resp \<Rightarrow> Fulfilled (r\<lparr>response := Some resp\<rparr>)
      | Inl errorMessage \<Rightarrow>
          Rejected (''Error sending request for component '' @ componentName r @ '': '' @ errorMessage))"

text \<open>
  \<^verbatim>\<open>Promise.allSettled\<close>. The promises settle in some order, \<open>completion\<close>, a list of
  their indices; each settlement stores its outcome in the slot of its own index, and the
  joint promise resolves with the slots once none is empty. \<open>None\<close>: some promise has not
  settled, and the join never resolves.
\<close>

definition settle :: "'a list \<Rightarrow> 'a option list \<Rightarrow> nat \<Rightarrow> 'a option list" where
  "settle promises slots i = (if i < length promises then slots[i := Some (promises ! i)] else slots)"

definition allSettled :: "nat list \<Rightarrow> 'a list \<Rightarrow> 'a list option" where
  "allSettled completion promises =
     (let slots = foldl (settle promises) (replicate (length promises) None) completion
      in if list_all (\<lambda>v. v \<noteq> None) slots then Some (map the slots) else None)"

text \<open>
  The callback that \<^verbatim>\<open>sendEnrichmentRequests\<close> maps over the settled results, each
  paired with its index.
\<close>

definition collectResult ::
  "EnrichmentRequestRecord list \<Rightarrow> EnrichmentRequestRecord PromiseSettledResult \<times> nat
     \<Rightarrow> EnrichmentRequestRecord" where
  "collectResult records p =
     (case fst p of
        Fulfilled v \<Rightarrow> v
      | Rejected errorMessage \<Rightarrow>
          (records ! snd p)\<lparr>response := None, message := Some errorMessage\<rparr>)"

definition sendEnrichmentRequests ::
  "Connection \<Rightarrow> nat list \<Rightarrow> EnrichmentRequestRecord list \<Rightarrow> EnrichmentRequestRecord list option" where
  "sendEnrichmentRequests connection completion records =
     (case allSettled completion (map (sendEnrichmentRequest connection) records) of
        None \<Rightarrow> None
      | Some requestResults \<Rightarrow>
          Some (map (collectResult records) (zip requestResults [0..<length requestResults])))"

definition enrich ::
  "Connection \<Rightarrow> nat list \<Rightarrow> FileSystem \<Rightarrow> SourceComponent list
     \<Rightarrow> EnrichmentRequestRecord list option" where
  "enrich connection completion fs sourceComponents =
     sendEnrichmentRequests connection completion (createEnrichmentRequestRecords fs sourceComponents)"

section \<open>Merging results into the support file (\<^verbatim>\<open>fileProcessor.ts\<close>)\<close>

text \<open>
  What the XML parser hands back and the builder takes: JavaScript values. An object is
  its properties in insertion order; an array is its elements and, since an array is an
  object too, the named properties assigned to it.
\<close>

datatype jsval =
    JUndefined
  | JBool bool
  | JNum number
  | JStr string
  | JObj "(string \<times> jsval) list"
  | JArr "jsval list" "(string \<times> jsval) list"

text \<open>
  The libraries \<^verbatim>\<open>updateMetaXml\<close> calls: \<^verbatim>\<open>XMLParser.parse\<close>, which returns the
  root object or throws, \<^verbatim>\<open>XMLBuilder.build\<close>, which returns the text or throws
  (\<open>Inl\<close> carries the message of what was thrown), and the rendering of a number by
  \<^verbatim>\<open>String\<close>.
\<close>

record XmlLibrary =
  parse :: "string \<Rightarrow> string + (string \<times> jsval) list"
  build :: "(string \<times> jsval) list \<Rightarrow> string + string"
  numberToString :: "number \<Rightarrow> string"

text \<open>\<^verbatim>\<open>String(v)\<close>; an array joins its elements with commas, an undefined one as empty.\<close>

fun jsString :: "(number \<Rightarrow> string) \<Rightarrow> jsval \<Rightarrow> string" where
  "jsString n2s JUndefined = ''undefined''"
| "jsString n2s (JBool b) = (if b then ''true'' else ''false'')"
| "jsString n2s (JNum q) = n2s q"
| "jsString n2s (JStr s) = s"
| "jsString n2s (JObj ps) = ''[object Object]''"
| "jsString n2s (JArr xs ps) =
     join_str '','' (map (\<lambda>x. if x = JUndefined then [] else jsString n2s x) xs)"

fun typeof :: "jsval \<Rightarrow> string" where
  "typeof JUndefined = ''undefined''"
| "typeof (JBool b) = ''boolean''"
| "typeof (JNum q) = ''number''"
| "typeof (JStr s) = ''string''"
| "typeof (JObj ps) = ''object''"
| "typeof (JArr xs ps) = ''object''"

fun truthy :: "jsval \<Rightarrow> bool" where
  "truthy JUndefined = False"
| "truthy (JBool b) = b"
| "truthy (JNum q) = (q \<noteq> 0)"
| "truthy (JStr s) = (s \<noteq> [])"
| "truthy (JObj ps) = True"
| "truthy (JArr xs ps) = True"

definition lookupProp :: "(string \<times> jsval) list \<Rightarrow> string \<Rightarrow> jsval" where
  "lookupProp ps k = (case map_of ps k of Some v \<Rightarrow> v | None \<Rightarrow> JUndefined)"

text \<open>
  \<^verbatim>\<open>v?.k\<close> for the keys read here, none of which a string, a number or a boolean has:
  undefined on \<^verbatim>\<open>undefined\<close> and on a primitive, the property otherwise.
\<close>

fun optProp :: "jsval \<Rightarrow> string \<Rightarrow> jsval" where
  "optProp (JObj ps) k = lookupProp ps k"
| "optProp (JArr xs ps) k = lookupProp ps k"
| "optProp v k = JUndefined"

text \<open>
  \<^verbatim>\<open>v.k = x\<close> in strict mode: stored on an object or an array, a \<^verbatim>\<open>TypeError\<close> on
  \<^verbatim>\<open>undefined\<close> and on a primitive (\<open>Inl\<close> is its message).
\<close>

fun assignProp :: "(number \<Rightarrow> string) \<Rightarrow> jsval \<Rightarrow> string \<Rightarrow> jsval \<Rightarrow> string + jsval" where
  "assignProp n2s (JObj ps) k x = Inr (JObj (AList.update k x ps))"
| "assignProp n2s (JArr xs ps) k x = Inr (JArr xs (AList.update k x ps))"
| "assignProp n2s JUndefined k x =
     Inl (''Cannot set properties of undefined (setting '' @ [CHR 0x27] @ k @ [CHR 0x27] @ '')'')"
| "assignProp n2s v k x =
     Inl (''Cannot create property '' @ [CHR 0x27] @ k @ [CHR 0x27] @ '' on '' @ typeof v @ '' ''
          @ [CHR 0x27] @ jsString n2s v @ [CHR 0x27])"

definition skipUpliftOf :: "(string \<times> jsval) list \<Rightarrow> jsval" where
  "skipUpliftOf xmlObj = optProp (optProp (lookupProp xmlObj ''LightningComponentBundle'') ''ai'') ''skipUplift''"

text \<open>\<^verbatim>\<open>skipUpliftValue === true || String(skipUpliftValue).toLowerCase() === 'true'\<close>.\<close>

definition optedOut :: "(number \<Rightarrow> string) \<Rightarrow> jsval \<Rightarrow> bool" where
  "optedOut n2s skipUpliftValue =
     (skipUpliftValue = JBool True \<or> toLowerCase (jsString n2s skipUpliftValue) = ''true'')"

definition newAi :: "(number \<Rightarrow> string) \<Rightarrow> EnrichmentResult \<Rightarrow> jsval" where
  "newAi n2s result =
     JObj [(''skipUplift'', JStr ''false''),
           (''description'', JStr (description result)),
           (''score'', JStr (n2s (descriptionScore result)))]"

text \<open>
  \<^verbatim>\<open>updateMetaXml\<close>. Whatever is thrown inside its \<^verbatim>\<open>try\<close> comes out as an
  \<^verbatim>\<open>SfError\<close> whose message starts with \<^verbatim>\<open>Failed to parse XML: \<close>; \<open>Inl\<close> is that
  message.
\<close>

definition failedToParse :: "string \<Rightarrow> string" where
  "failedToParse e = ''Failed to parse XML: '' @ e"

definition updateMetaXml :: "XmlLibrary \<Rightarrow> string \<Rightarrow> EnrichmentResult \<Rightarrow> string + string" where
  "updateMetaXml lib xmlContent result =
     (case parse lib xmlContent of
        Inl e \<Rightarrow> Inl (failedToParse e)
      | Inr xmlObj \<Rightarrow>
          if optedOut (numberToString lib) (skipUpliftOf xmlObj) then Inr xmlContent
          else
            let xmlObj1 =
                  (if truthy (lookupProp xmlObj ''LightningComponentBundle'') then xmlObj
                   else AList.update ''LightningComponentBundle'' (JObj []) xmlObj)
            in (case assignProp (numberToString lib) (lookupProp xmlObj1 ''LightningComponentBundle'')
                       ''ai'' (newAi (numberToString lib) result) of
                  Inl e \<Rightarrow> Inl (failedToParse e)
                | Inr bundle \<Rightarrow>
                    (case build lib (AList.update ''LightningComponentBundle'' bundle xmlObj1) of
                       Inl e \<Rightarrow> Inl (failedToParse e)
                     | Inr builtXml \<Rightarrow> Inr (collapseBlankLines (trim builtXml)))))"

text \<open>\<^verbatim>\<open>records.find(p)\<close> answers the first match; here, its index.\<close>

fun findIndex :: "('a \<Rightarrow> bool) \<Rightarrow> 'a list \<Rightarrow> nat option" where
  "findIndex p [] = None"
| "findIndex p (x # xs) = (if p x then Some 0 else map_option Suc (findIndex p xs))"

definition setMessage :: "EnrichmentRequestRecord list \<Rightarrow> nat \<Rightarrow> string \<Rightarrow> EnrichmentRequestRecord list" where
  "setMessage records k e = records[k := (records ! k)\<lparr>message := Some e\<rparr>]"

text \<open>
  One round of the \<^verbatim>\<open>for\<close> loop of \<^verbatim>\<open>updateMetadataFiles\<close>, on the records and the
  file system. The three \<^verbatim>\<open>continue\<close> statements leave both as they are; an error
  caught from \<^verbatim>\<open>updateMetaXml\<close> or from \<^verbatim>\<open>writeFile\<close> becomes the message of the
  record that \<^verbatim>\<open>find\<close> answered.
\<close>

definition mergeFile ::
  "XmlLibrary \<Rightarrow> EnrichmentRequestRecord list \<times> FileSystem \<Rightarrow> FileReadResult
     \<Rightarrow> EnrichmentRequestRecord list \<times> FileSystem" where
  "mergeFile lib st file =
     (if \<not> isMetaXmlFile (filePath file) then st
      else
        (case findIndex (\<lambda>r. componentName r = fr_componentName file) (fst st) of
           None \<Rightarrow> st
         | Some k \<Rightarrow>
             (case response (fst st ! k) of
                None \<Rightarrow> st
              | Some resp \<Rightarrow>
                  (case results resp of
                     [] \<Rightarrow> st
                   | enrichmentResult # _ \<Rightarrow>
                       (case updateMetaXml lib (fileContents file) enrichmentResult of
                          Inl e \<Rightarrow> (setMessage (fst st) k e, snd st)
                        | Inr updatedXml \<Rightarrow>
                            (case writeFile (snd st) (filePath file) updatedXml of
                               Inl e \<Rightarrow> (setMessage (fst st) k e, snd st)
                             | Inr fs' \<Rightarrow> (fst st, fs')))))))"

definition updateMetadataFiles ::
  "XmlLibrary \<Rightarrow> SourceComponent list \<Rightarrow> EnrichmentRequestRecord list \<Rightarrow> FileSystem
     \<Rightarrow> EnrichmentRequestRecord list \<times> FileSystem" where
  "updateMetadataFiles lib sourceComponents enrichmentRecords fs =
     foldl (mergeFile lib) (enrichmentRecords, fs) (readComponentXmlFilesInParallel fs sourceComponents)"

section \<open>Classifying the requested identifiers (\<^verbatim>\<open>utils/componentProcessor.ts\<close>)\<close>

text \<open>
  \<^verbatim>\<open>registry.getTypeByName(name).name\<close>: the registered name of the type, or \<open>None\<close>
  where the registry throws.
\<close>

type_synonym Registry = "string \<Rightarrow> string option"

definition parseMetadataEntry :: "Registry \<Rightarrow> string \<Rightarrow> MetadataTypeAndMetadataName option" where
  "parseMetadataEntry registry rawEntry =
     (let typeName = hd (split_str (CHR '':'') rawEntry);
          nameParts = tl (split_str (CHR '':'') rawEntry)
      in case registry (trim typeName) of
           None \<Rightarrow> None
         | Some registered \<Rightarrow>
             let metadataName = (if nameParts \<noteq> [] then trim (join_str '':'' nameParts) else ''*'')
             in Some \<lparr>mn_type = registered,
                      mn_componentName = (if metadataName = ''*'' then None else Some metadataName)\<rparr>)"

text \<open>
  A JavaScript \<^verbatim>\<open>Set\<close> of objects holds references: \<^verbatim>\<open>add\<close> compares the address
  of the object, never its fields. An object is kept with its address, and the set is
  the list of its members in insertion order.
\<close>

type_synonym 'a ref = "nat \<times> 'a"

definition set_add :: "'a ref list \<Rightarrow> 'a ref \<Rightarrow> 'a ref list" where
  "set_add members x = (if fst x \<in> set (map fst members) then members else members @ [x])"

text \<open>\<^verbatim>\<open>parsed.componentName && parsed.componentName.includes('*')\<close>.\<close>

definition isWildcarded :: "MetadataTypeAndMetadataName \<Rightarrow> bool" where
  "isWildcarded parsed =
     (case mn_componentName parsed of
        None \<Rightarrow> False
      | Some n \<Rightarrow> n \<noteq> [] \<and> str_includes n ''*'')"

text \<open>
  The loop of \<^verbatim>\<open>parseRequestedComponents\<close>. Every entry that parses is a new object
  literal, at the next free address \<open>next\<close>.
\<close>

fun parseRequestedLoop ::
  "Registry \<Rightarrow> string list \<Rightarrow> nat \<Rightarrow> MetadataTypeAndMetadataName ref list
     \<Rightarrow> MetadataTypeAndMetadataName ref list" where
  "parseRequestedLoop registry [] next requested = requested"
| "parseRequestedLoop registry (entry # entries) next requested =
     (case parseMetadataEntry registry entry of
        None \<Rightarrow> parseRequestedLoop registry entries next requested
      | Some parsed \<Rightarrow>
          if isWildcarded parsed then parseRequestedLoop registry entries (Suc next) requested
          else parseRequestedLoop registry entries (Suc next) (set_add requested (next, parsed)))"

definition parseRequestedComponents ::
  "Registry \<Rightarrow> string list \<Rightarrow> MetadataTypeAndMetadataName ref list" where
  "parseRequestedComponents registry metadataEntries = parseRequestedLoop registry metadataEntries 0 []"

text \<open>
  \<^verbatim>\<open>component.fullName ?? component.name\<close> where it passes the test
  \<^verbatim>\<open>if (componentName)\<close>.
\<close>

definition truthyName :: "SourceComponent \<Rightarrow> string option" where
  "truthyName component =
     (case componentNameOf component of
        None \<Rightarrow> None
      | Some n \<Rightarrow> if n = [] then None else Some n)"

definition getExistingSourceComponentNames :: "SourceComponent list \<Rightarrow> string set" where
  "getExistingSourceComponentNames sourceComponents = set (List.map_filter truthyName sourceComponents)"

definition createSourceComponentMap :: "SourceComponent list \<Rightarrow> string \<Rightarrow> SourceComponent option" where
  "createSourceComponentMap sourceComponents =
     foldl (\<lambda>m component. case truthyName component of None \<Rightarrow> m | Some n \<Rightarrow> m(n \<mapsto> component))
       Map.empty sourceComponents"

text \<open>\<^verbatim>\<open>{ ...requestedComponent, message }\<close>.\<close>

definition skipRecord :: "MetadataTypeAndMetadataName \<Rightarrow> string \<Rightarrow> ComponentEnrichmentStatus" where
  "skipRecord requestedComponent text =
     \<lparr>st_type = mn_type requestedComponent,
      st_componentName = mn_componentName requestedComponent,
      st_message = Some text\<rparr>"

text \<open>The body of the loop of \<^verbatim>\<open>diffRequestedComponents\<close>: what one member pushes.\<close>

definition diffOne :: "string set \<Rightarrow> MetadataTypeAndMetadataName ref \<Rightarrow> ComponentEnrichmentStatus list" where
  "diffOne existing requestedComponent =
     (case mn_componentName (snd requestedComponent) of
        None \<Rightarrow> []
      | Some n \<Rightarrow>
          if n \<noteq> [] \<and> n \<notin> existing
          then [skipRecord (snd requestedComponent) ''Not found in source project'']
          else [])"

definition diffRequestedComponents ::
  "SourceComponent list \<Rightarrow> MetadataTypeAndMetadataName ref list \<Rightarrow> ComponentEnrichmentStatus list" where
  "diffRequestedComponents sourceComponents requestedComponents =
     concat (map (diffOne (getExistingSourceComponentNames sourceComponents)) requestedComponents)"

text \<open>
  The body of the loop of \<^verbatim>\<open>filterComponents\<close>: the component found for the name,
  if the name is there and not empty, and what the two \<^verbatim>\<open>if\<close> statements push.
\<close>

definition lookupRequested ::
  "(string \<Rightarrow> SourceComponent option) \<Rightarrow> MetadataTypeAndMetadataName \<Rightarrow> SourceComponent option" where
  "lookupRequested sourceComponentMap requestedComponent =
     (case mn_componentName requestedComponent of
        None \<Rightarrow> None
      | Some n \<Rightarrow> if n = [] then None else sourceComponentMap n)"

definition filterOne ::
  "(string \<Rightarrow> SourceComponent option) \<Rightarrow> MetadataTypeAndMetadataName ref
     \<Rightarrow> ComponentEnrichmentStatus list" where
  "filterOne sourceComponentMap requestedComponent =
     (case lookupRequested sourceComponentMap (snd requestedComponent) of
        None \<Rightarrow> []
      | Some sourceComponent \<Rightarrow>
          (if map_option mt_name (sc_type sourceComponent) \<noteq> Some ''LightningComponentBundle''
           then [skipRecord (snd requestedComponent)
                   ''Only Lightning Web Components are currently supported for enrichment'']
           else [])
          @ (if map_option mt_name (sc_type sourceComponent) = Some ''LightningComponentBundle''
                \<and> (xml sourceComponent = None \<or> xml sourceComponent = Some [])
             then [skipRecord (snd requestedComponent)
                     ''Lightning Web Component configuration file does not exist (*.js-meta.xml)'']
             else []))"

definition filterComponents ::
  "SourceComponent list \<Rightarrow> MetadataTypeAndMetadataName ref list \<Rightarrow> ComponentEnrichmentStatus list" where
  "filterComponents sourceComponents requestedComponents =
     concat (map (filterOne (createSourceComponentMap sourceComponents)) requestedComponents)"

definition getComponentsToSkip ::
  "Registry \<Rightarrow> SourceComponent list \<Rightarrow> string list \<Rightarrow> ComponentEnrichmentStatus list" where
  "getComponentsToSkip registry sourceComponents metadataEntries =
     diffRequestedComponents sourceComponents (parseRequestedComponents registry metadataEntries)
     @ filterComponents sourceComponents (parseRequestedComponents registry metadataEntries)"

text \<open>
  The command that calls the classifier keeps for dispatch the discovered components
  whose name no skip record carries.
\<close>

definition componentsToProcess ::
  "SourceComponent list \<Rightarrow> ComponentEnrichmentStatus list \<Rightarrow> SourceComponent list" where
  "componentsToProcess sourceComponents componentsToSkip =
     filter (\<lambda>component.
        case truthyName component of
          None \<Rightarrow> False
        | Some n \<Rightarrow> \<not> list_ex (\<lambda>skip. st_componentName skip = Some n) componentsToSkip)
       sourceComponents"

text \<open>A registry that knows two types, for the worked examples.\<close>

definition exampleRegistry :: Registry where
  "exampleRegistry n =
     (if n = ''LightningComponentBundle'' \<or> n = ''ApexClass'' then Some n else None)"

section \<open>Derived forms used in the proofs\<close>

text \<open>What one record comes back as from the dispatch, whoever else is in the batch.\<close>

definition dispatched :: "Connection \<Rightarrow> EnrichmentRequestRecord \<Rightarrow> EnrichmentRequestRecord" where
  "dispatched connection r =
     (case connection ENDPOINT_ENRICHMENT (requestBody r) of
        Inr resp \<Rightarrow> r\<lparr>response := Some resp\<rparr>
      | Inl e \<Rightarrow>
          r\<lparr>response := None,
            message := Some (''Error sending request for component '' @ componentName r @ '': '' @ e)\<rparr>)"

text \<open>
  The merge loop, round by round. A round either does nothing, or sets the message of one
  record, or writes one file; which of these it does depends on the records only through
  their fields other than \<open>message\<close>, and on the file system only through the paths
  whose write fails, and no round changes either. \<open>eraseMessage\<close> forgets the message
  of a record, \<open>fileEffect\<close> is what the round for one file does, and \<open>applyEffect\<close>
  does it.
\<close>

definition eraseMessage :: "EnrichmentRequestRecord \<Rightarrow> EnrichmentRequestRecord" where
  "eraseMessage r = r\<lparr>message := None\<rparr>"

datatype effect = NoEffect | SetMessage nat string | WriteFile string string

definition fileEffect ::
  "XmlLibrary \<Rightarrow> EnrichmentRequestRecord list \<Rightarrow> FileSystem \<Rightarrow> FileReadResult \<Rightarrow> effect" where
  "fileEffect lib records fs file =
     (if \<not> isMetaXmlFile (filePath file) then NoEffect
      else
        (case findIndex (\<lambda>r. componentName r = fr_componentName file) records of
           None \<Rightarrow> NoEffect
         | Some k \<Rightarrow>
             (case response (records ! k) of
                None \<Rightarrow> NoEffect
              | Some resp \<Rightarrow>
                  (case results resp of
                     [] \<Rightarrow> NoEffect
                   | enrichmentResult # _ \<Rightarrow>
                       (case updateMetaXml lib (fileContents file) enrichmentResult of
                          Inl e \<Rightarrow> SetMessage k e
                        | Inr updatedXml \<Rightarrow>
                            (case fs_writeError fs (filePath file) of
                               Some e \<Rightarrow> SetMessage k e
                             | None \<Rightarrow> WriteFile (filePath file) updatedXml))))))"

fun applyEffect ::
  "EnrichmentRequestRecord list \<times> FileSystem \<Rightarrow> effect \<Rightarrow> EnrichmentRequestRecord list \<times> FileSystem" where
  "applyEffect st NoEffect = st"
| "applyEffect st (SetMessage k e) = (setMessage (fst st) k e, snd st)"
| "applyEffect st (WriteFile p t) = (fst st, (snd st)\<lparr>fs_content := (fs_content (snd st))(p \<mapsto> t)\<rparr>)"

text \<open>
  A requested identifier is a wildcard when it parses and its name is absent (the forms
  \<^verbatim>\<open>Kind:*\<close> and \<^verbatim>\<open>Kind\<close>) or contains \<^verbatim>\<open>*\<close>.
\<close>

definition isWildcardEntry :: "Registry \<Rightarrow> string \<Rightarrow> bool" where
  "isWildcardEntry registry rawEntry =
     (case parseMetadataEntry registry rawEntry of
        None \<Rightarrow> False
      | Some parsed \<Rightarrow> mn_componentName parsed = None \<or> isWildcarded parsed)"

text \<open>The parsed identifiers that reach the set, in order, without their addresses.\<close>

definition keptEntries :: "Registry \<Rightarrow> string list \<Rightarrow> MetadataTypeAndMetadataName list" where
  "keptEntries registry metadataEntries =
     filter (\<lambda>parsed. \<not> isWildcarded parsed) (List.map_filter (parseMetadataEntry registry) metadataEntries)"

section \<open>Worked examples\<close>

text \<open>
  Two components, \<^verbatim>\<open>alpha\<close> and \<^verbatim>\<open>beta\<close>, a remote side that answers every
  request but the one for \<^verbatim>\<open>beta\<close>, and the records of both before the dispatch.
\<close>

definition exampleType :: MetadataType where
  "exampleType = \<lparr>mt_name = ''LightningComponentBundle''\<rparr>"

definition exampleResult :: EnrichmentResult where
  "exampleResult =
     \<lparr>resourceId = ''0'', res_resourceName = ''alpha'', metadataType = ''Generic'',
      modelUsed = ''m'', description = ''d'', descriptionScore = 9 / 10\<rparr>"

definition exampleResponse :: EnrichMetadataResult where
  "exampleResponse =
     \<lparr>metadata = \<lparr>durationMs = 1, failureCount = 0, successCount = 1, timestamp = ''t''\<rparr>,
      results = [exampleResult]\<rparr>"

definition exampleRecord :: "string \<Rightarrow> EnrichmentRequestRecord" where
  "exampleRecord name =
     \<lparr>componentName = name,
      componentType = Some exampleType,
      requestBody = createEnrichmentRequestBody (createContentBundle name []),
      response = None,
      message = None\<rparr>"

definition exampleConnection :: Connection where
  "exampleConnection url body =
     (if body = requestBody (exampleRecord ''beta'') then Inl ''socket hang up''
      else Inr exampleResponse)"

text \<open>
  Support files: that of \<^verbatim>\<open>alpha\<close> parses and has no opt-out, that of \<^verbatim>\<open>beta\<close>
  does not parse, that of \<^verbatim>\<open>gamma\<close> opts out with \<^verbatim>\<open>TRUE\<close> and has an
  \<^verbatim>\<open>e\<close> with an acute accent in a comment, encoded in UTF-8 (\<^verbatim>\<open>C3 A9\<close>), that of
  \<^verbatim>\<open>epsilon\<close> parses and cannot be written, and that of any other component cannot
  be read. The library is a stand-in that knows these texts.
\<close>

definition examplePlainXml :: string where
  "examplePlainXml = ''<LightningComponentBundle><apiVersion>59.0</apiVersion></LightningComponentBundle>''"

definition exampleOptOutXml :: string where
  "exampleOptOutXml =
     ''<LightningComponentBundle><!-- caf'' @ [CHR 0xC3, CHR 0xA9] @ '' --><ai><skipUplift>TRUE</skipUplift></ai></LightningComponentBundle>''"

definition exampleBuiltXml :: string where
  "exampleBuiltXml = ''<LightningComponentBundle><ai><description>d</description></ai></LightningComponentBundle>''"

definition exampleLibrary :: XmlLibrary where
  "exampleLibrary =
     \<lparr>parse = (\<lambda>text.
        if text = examplePlainXml
        then Inr [(''LightningComponentBundle'', JObj [(''apiVersion'', JNum 59)])]
        else if text = exampleOptOutXml
        then Inr [(''LightningComponentBundle'', JObj [(''ai'', JObj [(''skipUplift'', JStr ''TRUE'')])])]
        else Inl ''Unclosed tag''),
      build = (\<lambda>xmlObj.
        Inr (''<LightningComponentBundle><ai><description>''
             @ jsString (\<lambda>q. ''59'')
                 (optProp (optProp (lookupProp xmlObj ''LightningComponentBundle'') ''ai'') ''description'')
             @ ''</description></ai></LightningComponentBundle>'')),
      numberToString = (\<lambda>q. if q = 9 / 10 then ''0.9'' else ''59'')\<rparr>"

definition examplePath :: "string \<Rightarrow> string" where
  "examplePath name = ''lwc/'' @ name @ ''.js-meta.xml''"

definition exampleFs :: FileSystem where
  "exampleFs =
     \<lparr>fs_content = map_of [(examplePath ''alpha'', examplePlainXml),
                           (examplePath ''beta'', ''<broken''),
                           (examplePath ''gamma'', exampleOptOutXml),
                           (examplePath ''epsilon'', examplePlainXml)],
      fs_writeError = (\<lambda>path.
        if path = examplePath ''epsilon'' then Some ''EACCES: permission denied'' else None)\<rparr>"

definition exampleComponent :: "string \<Rightarrow> SourceComponent" where
  "exampleComponent name =
     \<lparr>fullName = Some name, sc_name = Some name, sc_type = Some exampleType,
      xml = Some (examplePath name), walkContent = []\<rparr>"

definition exampleEnriched :: "string \<Rightarrow> EnrichmentRequestRecord" where
  "exampleEnriched name = (exampleRecord name)\<lparr>response := Some exampleResponse\<rparr>"

text \<open>
  The support file of \<^verbatim>\<open>zeta\<close> opts out with \<^verbatim>\<open>true\<close> and is encoded in
  Latin-1: the accented \<^verbatim>\<open>e\<close> of its comment is the single byte \<^verbatim>\<open>E9\<close>, which
  is not UTF-8. The stand-in library parses the text that the read makes of it.
\<close>

definition exampleLatin1Xml :: string where
  "exampleLatin1Xml =
     ''<LightningComponentBundle><!-- caf'' @ [CHR 0xE9] @ '' --><ai><skipUplift>true</skipUplift></ai></LightningComponentBundle>''"



section \<open>Properties of the metrics\<close>

lemma foldl_addRecord:
  "foldl addRecord m rs =
     m\<lparr>success := \<lparr>count = count (success m) + length (successOf rs),
                    components = components (success m) @ successOf rs\<rparr>,
       fail := \<lparr>count = count (fail m) + length (failOf rs),
                 components = components (fail m) @ failOf rs\<rparr>,
       total := total m + length rs\<rparr>"
proof (induction rs arbitrary: m)
  case Nil
  show ?case by (simp add: successOf_def failOf_def)
next
  case (Cons r rs)
  show ?case
  proof (cases "response r")
    case None
    then have step: "addRecord m r = addFailComponent m (componentStatus r)"
      by (simp add: addRecord_def)
    have "foldl addRecord m (r # rs) = foldl addRecord (addFailComponent m (componentStatus r)) rs"
      by (simp add: step)
    then show ?thesis
      using None
      by (simp add: Cons.IH addFailComponent_def push_component_def successOf_def failOf_def)
  next
    case (Some resp)
    then have step: "addRecord m r = addSuccessComponent m (componentStatus r)"
      by (simp add: addRecord_def)
    have "foldl addRecord m (r # rs) = foldl addRecord (addSuccessComponent m (componentStatus r)) rs"
      by (simp add: step)
    then show ?thesis
      using Some
      by (simp add: Cons.IH addSuccessComponent_def push_component_def successOf_def failOf_def)
  qed
qed

lemma foldl_addSkippedComponent:
  "foldl addSkippedComponent m cs =
     m\<lparr>skipped := \<lparr>count = count (skipped m) + length cs,
                    components = components (skipped m) @ cs\<rparr>,
       total := total m + length cs\<rparr>"
  by (induction cs arbitrary: m) (simp_all add: addSkippedComponent_def push_component_def)

lemma createEnrichmentMetrics_closed:
  "createEnrichmentMetrics rs sk =
     \<lparr>success = \<lparr>count = length (successOf rs), components = successOf rs\<rparr>,
      fail = \<lparr>count = length (failOf rs), components = failOf rs\<rparr>,
      skipped = \<lparr>count = length sk, components = sk\<rparr>,
      total = length rs + length sk\<rparr>"
  by (simp add: createEnrichmentMetrics_def foldl_addRecord foldl_addSkippedComponent
      newEnrichmentMetrics_def)

lemma length_successOf_failOf: "length (successOf rs) + length (failOf rs) = length rs"
  unfolding successOf_def failOf_def
  using sum_length_filter_compl [of "\<lambda>r. response r \<noteq> None" rs] by simp

text \<open>
  C1. For every list of request records and every list of skip records, the metrics that
  \<^verbatim>\<open>createEnrichmentMetrics\<close> returns have \<open>total\<close> equal to the sum of the three
  bucket counts, and every input lands in exactly one bucket: each count is the length of
  its bucket, the records with a response are the success bucket, the records without one
  are the fail bucket, the skip records are the skipped bucket, and the total is the number
  of inputs.
\<close>

theorem metrics_total_is_sum_of_buckets:
  fixes rs :: "EnrichmentRequestRecord list" and sk :: "ComponentEnrichmentStatus list"
  defines "m \<equiv> createEnrichmentMetrics rs sk"
  shows "total m = count (success m) + count (fail m) + count (skipped m)
    \<and> count (success m) = length (components (success m))
    \<and> count (fail m) = length (components (fail m))
    \<and> count (skipped m) = length (components (skipped m))
    \<and> components (success m) = map componentStatus (filter (\<lambda>r. response r \<noteq> None) rs)
    \<and> components (fail m) = map componentStatus (filter (\<lambda>r. response r = None) rs)
    \<and> components (skipped m) = sk
    \<and> total m = length rs + length sk"
  unfolding m_def createEnrichmentMetrics_closed
  using length_successOf_failOf [of rs] by (simp add: successOf_def failOf_def)

lemma successOf_append: "successOf (xs @ ys) = successOf xs @ successOf ys"
  by (simp add: successOf_def)

lemma failOf_append: "failOf (xs @ ys) = failOf xs @ failOf ys"
  by (simp add: failOf_def)

lemma success_components: "components (success (createEnrichmentMetrics rs sk)) = successOf rs"
  by (simp add: createEnrichmentMetrics_closed)

lemma fail_components: "components (fail (createEnrichmentMetrics rs sk)) = failOf rs"
  by (simp add: createEnrichmentMetrics_closed)

text \<open>
  C6. For every request record given to the aggregation, wherever it stands in the list:
  with a response it is one entry of the success bucket, at its place among the records
  with a response, and adds nothing to the fail bucket; without a response it is one
  entry of the fail bucket and adds nothing to the success bucket, and the message of
  that entry is the record's own message, or \<^verbatim>\<open>Enrichment request failed\<close> when the
  record has none.
\<close>

theorem record_bucket_by_response:
  fixes r :: EnrichmentRequestRecord
    and pre post :: "EnrichmentRequestRecord list"
    and sk :: "ComponentEnrichmentStatus list"
  defines "m \<equiv> createEnrichmentMetrics (pre @ r # post) sk"
  defines "before \<equiv> createEnrichmentMetrics pre []"
  defines "after \<equiv> createEnrichmentMetrics post []"
  shows "(response r \<noteq> None \<longrightarrow>
            components (success m) = components (success before) @ [componentStatus r] @ components (success after)
          \<and> components (fail m) = components (fail before) @ components (fail after))
       \<and> (response r = None \<longrightarrow>
            components (fail m) = components (fail before) @ [componentStatus r] @ components (fail after)
          \<and> components (success m) = components (success before) @ components (success after)
          \<and> st_message (componentStatus r)
              = Some (case message r of Some t \<Rightarrow> t | None \<Rightarrow> ''Enrichment request failed''))"
proof -
  have s: "successOf (pre @ r # post) = successOf pre @ successOf [r] @ successOf post"
    using successOf_append [of pre "[r] @ post"] successOf_append [of "[r]" post] by simp
  have f: "failOf (pre @ r # post) = failOf pre @ failOf [r] @ failOf post"
    using failOf_append [of pre "[r] @ post"] failOf_append [of "[r]" post] by simp
  show ?thesis
  proof (cases "response r")
    case None
    then have "successOf [r] = []" and "failOf [r] = [componentStatus r]"
      by (simp_all add: successOf_def failOf_def)
    moreover have "st_message (componentStatus r)
        = Some (case message r of Some t \<Rightarrow> t | None \<Rightarrow> ''Enrichment request failed'')"
      using None by (simp add: componentStatus_def statusMessage_def split: option.splits)
    ultimately show ?thesis
      using None s f by (simp add: m_def before_def after_def success_components fail_components)
  next
    case (Some resp)
    then have "successOf [r] = [componentStatus r]" and "failOf [r] = []"
      by (simp_all add: successOf_def failOf_def)
    then show ?thesis
      using Some s f by (simp add: m_def before_def after_def success_components fail_components)
  qed
qed

theorem record_bucket_by_response_witness:
  "response (exampleRecord ''beta'') = None
   \<and> components (fail (createEnrichmentMetrics [exampleRecord ''beta''] []))
       = [\<lparr>st_type = ''LightningComponentBundle'', st_componentName = Some ''beta'',
            st_message = Some ''Enrichment request failed''\<rparr>]
   \<and> components (success (createEnrichmentMetrics [exampleRecord ''beta''] [])) = []"
  using record_bucket_by_response [of "exampleRecord ''beta''" "[]" "[]" "[]"]
  by (simp add: exampleRecord_def exampleType_def createEnrichmentMetrics_closed successOf_def
      failOf_def componentStatus_def statusMetadataType_def statusMessage_def)

section \<open>Properties of the dispatch\<close>

lemma length_foldl_settle: "length (foldl (settle ps) slots completion) = length slots"
  by (induction completion arbitrary: slots) (simp_all add: settle_def)

lemma nth_foldl_settle:
  "length slots = length ps \<Longrightarrow> i < length ps \<Longrightarrow>
     foldl (settle ps) slots completion ! i
       = (if i \<in> set completion then Some (ps ! i) else slots ! i)"
proof (induction completion arbitrary: slots)
  case Nil
  show ?case by simp
next
  case (Cons j completion)
  have len: "length (settle ps slots j) = length ps"
    using Cons.prems(1) by (simp add: settle_def)
  have step: "foldl (settle ps) slots (j # completion) ! i
      = (if i \<in> set completion then Some (ps ! i) else settle ps slots j ! i)"
    using Cons.IH [OF len Cons.prems(2)] by simp
  have "settle ps slots j ! i = (if i = j then Some (ps ! i) else slots ! i)"
    using Cons.prems by (auto simp: settle_def)
  with step show ?case by auto
qed

lemma allSettled_all:
  assumes "{..<length ps} \<subseteq> set completion"
  shows "allSettled completion ps = Some ps"
proof -
  let ?slots = "foldl (settle ps) (replicate (length ps) None) completion"
  have len: "length ?slots = length ps"
    by (simp add: length_foldl_settle)
  have nth: "?slots ! i = Some (ps ! i)" if "i < length ps" for i
    using nth_foldl_settle [of "replicate (length ps) None" ps i completion] that assms by auto
  have eq: "?slots = map Some ps"
    by (rule nth_equalityI) (simp_all add: len nth)
  show ?thesis
    unfolding allSettled_def Let_def eq by (simp add: list_all_iff comp_def)
qed

lemma allSettled_sound: "allSettled completion ps = Some out \<Longrightarrow> out = ps"
proof -
  assume a: "allSettled completion ps = Some out"
  let ?slots = "foldl (settle ps) (replicate (length ps) None) completion"
  have len: "length ?slots = length ps"
    by (simp add: length_foldl_settle)
  from a have all: "list_all (\<lambda>v. v \<noteq> None) ?slots" and out: "out = map the ?slots"
    by (auto simp: allSettled_def Let_def split: if_splits)
  have nth: "?slots ! i = Some (ps ! i)" if "i < length ps" for i
  proof -
    have "?slots ! i \<noteq> None"
      using all that len by (simp add: list_all_length)
    then show ?thesis
      using nth_foldl_settle [of "replicate (length ps) None" ps i completion] that
      by (auto split: if_splits)
  qed
  show "out = ps"
    unfolding out by (rule nth_equalityI) (simp_all add: len nth)
qed

lemma collect_dispatched:
  "map (collectResult records) (zip (map (sendEnrichmentRequest connection) records) [0..<length records])
     = map (dispatched connection) records"
proof (rule nth_equalityI)
  show "length (map (collectResult records)
          (zip (map (sendEnrichmentRequest connection) records) [0..<length records]))
        = length (map (dispatched connection) records)"
    by simp
next
  fix i
  assume "i < length (map (collectResult records)
      (zip (map (sendEnrichmentRequest connection) records) [0..<length records]))"
  then have i: "i < length records" by simp
  then show "map (collectResult records)
        (zip (map (sendEnrichmentRequest connection) records) [0..<length records]) ! i
      = map (dispatched connection) records ! i"
    by (simp add: collectResult_def sendEnrichmentRequest_def dispatched_def split: sum.splits)
qed

lemma sendEnrichmentRequests_all:
  assumes "{..<length records} \<subseteq> set completion"
  shows "sendEnrichmentRequests connection completion records = Some (map (dispatched connection) records)"
proof -
  have "allSettled completion (map (sendEnrichmentRequest connection) records)
      = Some (map (sendEnrichmentRequest connection) records)"
    using assms by (simp add: allSettled_all)
  then show ?thesis
    using collect_dispatched [of records connection] by (simp add: sendEnrichmentRequests_def)
qed

lemma sendEnrichmentRequests_sound:
  assumes "sendEnrichmentRequests connection completion records = Some out"
  shows "out = map (dispatched connection) records"
proof -
  from assms obtain rr where rr: "allSettled completion (map (sendEnrichmentRequest connection) records) = Some rr"
    and out: "out = map (collectResult records) (zip rr [0..<length rr])"
    by (auto simp: sendEnrichmentRequests_def split: option.splits)
  have "rr = map (sendEnrichmentRequest connection) records"
    using rr by (rule allSettled_sound)
  then show ?thesis
    using out collect_dispatched [of records connection] by simp
qed

lemma dispatched_frame:
  "componentName (dispatched connection r) = componentName r"
  "componentType (dispatched connection r) = componentType r"
  "requestBody (dispatched connection r) = requestBody r"
  by (simp_all add: dispatched_def split: sum.splits)

lemma dispatched_cong:
  "connection' ENDPOINT_ENRICHMENT (requestBody r) = connection ENDPOINT_ENRICHMENT (requestBody r)
     \<Longrightarrow> dispatched connection' r = dispatched connection r"
  by (simp add: dispatched_def)

text \<open>
  C2. For every list of request records and every order in which the requests complete,
  provided each of them completes, the dispatch returns a list of the same length whose
  entry \<open>i\<close> is the outcome of input record \<open>i\<close> (same component, same type, same
  request body): exactly what dispatching that record alone returns. The list is the same
  for every completion order, and the outcome of record \<open>i\<close> is the same under any other
  connection that answers the request of record \<open>i\<close> alike, whatever it answers, or
  fails to answer, for the other records.
\<close>

theorem dispatch_keeps_order_and_isolates_failures:
  assumes complete: "{..<length records} \<subseteq> set completion"
  shows "\<exists>out. sendEnrichmentRequests connection completion records = Some out
      \<and> length out = length records
      \<and> (\<forall>i<length records.
            sendEnrichmentRequests connection [0] [records ! i] = Some [out ! i]
          \<and> componentName (out ! i) = componentName (records ! i)
          \<and> componentType (out ! i) = componentType (records ! i)
          \<and> requestBody (out ! i) = requestBody (records ! i))
      \<and> (\<forall>completion'. {..<length records} \<subseteq> set completion'
            \<longrightarrow> sendEnrichmentRequests connection completion' records = Some out)
      \<and> (\<forall>connection' i. i < length records
            \<and> connection' ENDPOINT_ENRICHMENT (requestBody (records ! i))
                = connection ENDPOINT_ENRICHMENT (requestBody (records ! i))
            \<longrightarrow> (\<exists>out'. sendEnrichmentRequests connection' completion records = Some out'
                  \<and> out' ! i = out ! i))"
proof -
  let ?out = "map (dispatched connection) records"
  have whole: "sendEnrichmentRequests connection completion records = Some ?out"
    using complete by (rule sendEnrichmentRequests_all)
  have alone: "sendEnrichmentRequests connection [0] [records ! i] = Some [?out ! i]"
    if "i < length records" for i
  proof -
    have "{..<length [records ! i]} \<subseteq> set [0::nat]" by auto
    then show ?thesis
      using that sendEnrichmentRequests_all [of "[records ! i]" "[0]" connection] by simp
  qed
  have any_order: "sendEnrichmentRequests connection completion' records = Some ?out"
    if "{..<length records} \<subseteq> set completion'" for completion'
    using that by (rule sendEnrichmentRequests_all)
  have other: "\<exists>out'. sendEnrichmentRequests connection' completion records = Some out'
      \<and> out' ! i = ?out ! i"
    if "i < length records"
      and "connection' ENDPOINT_ENRICHMENT (requestBody (records ! i))
        = connection ENDPOINT_ENRICHMENT (requestBody (records ! i))"
    for connection' i
  proof -
    have "dispatched connection' (records ! i) = dispatched connection (records ! i)"
      using that(2) by (rule dispatched_cong)
    then show ?thesis
      using that(1) sendEnrichmentRequests_all [OF complete, of connection'] by simp
  qed
  show ?thesis
    using whole alone any_order other by (intro exI [of _ ?out]) (simp add: dispatched_frame)
qed


lemma example_bodies_differ:
  "requestBody (exampleRecord ''alpha'') \<noteq> requestBody (exampleRecord ''beta'')"
  by (simp add: exampleRecord_def createEnrichmentRequestBody_def createContentBundle_def)

lemma example_answers:
  "exampleConnection ENDPOINT_ENRICHMENT (requestBody (exampleRecord ''alpha'')) = Inr exampleResponse"
  "exampleConnection ENDPOINT_ENRICHMENT (requestBody (exampleRecord ''beta'')) = Inl ''socket hang up''"
  using example_bodies_differ by (simp_all add: exampleConnection_def)

lemma example_dispatch:
  "sendEnrichmentRequests exampleConnection [1, 0] [exampleRecord ''alpha'', exampleRecord ''beta'']
     = Some [(exampleRecord ''alpha'')\<lparr>response := Some exampleResponse\<rparr>,
             (exampleRecord ''beta'')\<lparr>response := None,
                message := Some ''Error sending request for component beta: socket hang up''\<rparr>]"
  by (simp add: sendEnrichmentRequests_def allSettled_def settle_def collectResult_def
      sendEnrichmentRequest_def example_answers)
     (simp add: exampleRecord_def)

theorem dispatch_keeps_order_and_isolates_failures_witness:
  "{..<length [exampleRecord ''alpha'', exampleRecord ''beta'']} \<subseteq> set [1, 0]
   \<and> sendEnrichmentRequests exampleConnection [1, 0] [exampleRecord ''alpha'', exampleRecord ''beta'']
       = Some [(exampleRecord ''alpha'')\<lparr>response := Some exampleResponse\<rparr>,
               (exampleRecord ''beta'')\<lparr>response := None,
                  message := Some ''Error sending request for component beta: socket hang up''\<rparr>]
   \<and> sendEnrichmentRequests exampleConnection [0] [exampleRecord ''alpha'']
       = Some [(exampleRecord ''alpha'')\<lparr>response := Some exampleResponse\<rparr>]"
proof -
  have complete: "{..<length [exampleRecord ''alpha'', exampleRecord ''beta'']} \<subseteq> set [1, 0::nat]"
    by auto
  from dispatch_keeps_order_and_isolates_failures [OF complete, of exampleConnection]
  obtain out where out: "sendEnrichmentRequests exampleConnection [1, 0]
        [exampleRecord ''alpha'', exampleRecord ''beta''] = Some out"
    and alone: "\<forall>i<length [exampleRecord ''alpha'', exampleRecord ''beta''].
        sendEnrichmentRequests exampleConnection [0] [[exampleRecord ''alpha'', exampleRecord ''beta''] ! i]
          = Some [out ! i]"
    by blast
  have "sendEnrichmentRequests exampleConnection [0] [exampleRecord ''alpha''] = Some [out ! 0]"
    using alone by auto
  then show ?thesis
    using complete out example_dispatch by auto
qed

lemma str_includes_self: "str_includes (s @ q) s"
proof (cases "s @ q")
  case Nil
  then show ?thesis by simp
next
  case (Cons c cs)
  have "startsWith (s @ q) s" by (simp add: startsWith_def)
  then show ?thesis using Cons by simp
qed

lemma str_includes_append: "str_includes (p @ s @ q) s"
proof (induction p)
  case Nil
  show ?case by (simp add: str_includes_self)
next
  case (Cons c p)
  then show ?case by simp
qed

lemma nonNull_Nil: "nonNull [] = []"
  by (simp add: nonNull_def)

lemma nonNull_Cons: "nonNull (x # xs) = (case x of None \<Rightarrow> nonNull xs | Some y \<Rightarrow> y # nonNull xs)"
  by (simp add: nonNull_def split: option.splits)

lemma nonNull_append: "nonNull (xs @ ys) = nonNull xs @ nonNull ys"
  by (induction xs) (simp_all add: nonNull_Nil nonNull_Cons split: option.splits)

lemma set_nonNull: "set (nonNull xs) = {y. Some y \<in> set xs}"
  by (induction xs) (auto simp: nonNull_Nil nonNull_Cons split: option.splits)

lemma created_record_fresh:
  assumes "r \<in> set (createEnrichmentRequestRecords fs sourceComponents)"
  shows "response r = None \<and> message r = None"
proof -
  from assms obtain c where "createRecord fs c = Some r"
    by (auto simp: createEnrichmentRequestRecords_def set_nonNull)
  then show ?thesis
    by (auto simp: createRecord_def split: option.splits if_splits)
qed

text \<open>
  C7. Whenever every request settles, the dispatch returns, and always the same list. For
  every dispatched record: when the remote call succeeds, the returned record is the
  input record with its response set to the parsed result, and its message is the
  input's, which is unset on every record that \<^verbatim>\<open>enrich\<close> creates; when the call
  fails, the returned record has no response and its message is
  \<^verbatim>\<open>Error sending request for component NAME: REASON\<close>, a string that contains the
  component's name.
\<close>

theorem dispatch_sets_response_or_message:
  assumes complete: "{..<length records} \<subseteq> set completion"
    and i: "i < length records"
  shows "\<exists>out. sendEnrichmentRequests connection completion records = Some out
       \<and> (\<forall>completion' out'. sendEnrichmentRequests connection completion' records = Some out'
            \<longrightarrow> out' = out)
       \<and> (\<forall>resp. connection ENDPOINT_ENRICHMENT (requestBody (records ! i)) = Inr resp
            \<longrightarrow> out ! i = (records ! i)\<lparr>response := Some resp\<rparr>
              \<and> response (out ! i) = Some resp
              \<and> message (out ! i) = message (records ! i))
       \<and> (\<forall>e. connection ENDPOINT_ENRICHMENT (requestBody (records ! i)) = Inl e
            \<longrightarrow> response (out ! i) = None
              \<and> message (out ! i)
                  = Some (''Error sending request for component '' @ componentName (records ! i) @ '': '' @ e)
              \<and> str_includes (the (message (out ! i))) (componentName (records ! i)))
       \<and> (\<forall>fs sourceComponents resp.
              records = createEnrichmentRequestRecords fs sourceComponents
            \<and> connection ENDPOINT_ENRICHMENT (requestBody (records ! i)) = Inr resp
            \<longrightarrow> message (out ! i) = None)"
proof -
  define out where "out = map (dispatched connection) records"
  have sent: "sendEnrichmentRequests connection completion records = Some out"
    unfolding out_def using complete by (rule sendEnrichmentRequests_all)
  have only: "\<forall>completion' out'. sendEnrichmentRequests connection completion' records = Some out'
      \<longrightarrow> out' = out"
    unfolding out_def using sendEnrichmentRequests_sound by blast
  have out: "out ! i = dispatched connection (records ! i)"
    using i by (simp add: out_def)
  have ok: "out ! i = (records ! i)\<lparr>response := Some resp\<rparr>"
    if "connection ENDPOINT_ENRICHMENT (requestBody (records ! i)) = Inr resp" for resp
    using that out by (simp add: dispatched_def)
  have bad: "out ! i = (records ! i)\<lparr>response := None,
        message := Some (''Error sending request for component '' @ componentName (records ! i) @ '': '' @ e)\<rparr>"
    if "connection ENDPOINT_ENRICHMENT (requestBody (records ! i)) = Inl e" for e
    using that out by (simp add: dispatched_def)
  have inc: "str_includes (''Error sending request for component '' @ componentName (records ! i) @ '': '' @ e)
      (componentName (records ! i))" for e
    by (rule str_includes_append)
  have fresh: "message (records ! i) = None"
    if "records = createEnrichmentRequestRecords fs sourceComponents" for fs sourceComponents
    using created_record_fresh [of "records ! i" fs sourceComponents] that i by simp
  have success: "\<forall>resp. connection ENDPOINT_ENRICHMENT (requestBody (records ! i)) = Inr resp
      \<longrightarrow> out ! i = (records ! i)\<lparr>response := Some resp\<rparr>
        \<and> response (out ! i) = Some resp
        \<and> message (out ! i) = message (records ! i)"
  proof (intro conjI allI impI)
    fix resp
    assume a: "connection ENDPOINT_ENRICHMENT (requestBody (records ! i)) = Inr resp"
    show "out ! i = (records ! i)\<lparr>response := Some resp\<rparr>" by (rule ok [OF a])
    show "response (out ! i) = Some resp" by (simp add: ok [OF a])
    show "message (out ! i) = message (records ! i)" by (simp add: ok [OF a])
  qed
  have failure: "\<forall>e. connection ENDPOINT_ENRICHMENT (requestBody (records ! i)) = Inl e
      \<longrightarrow> response (out ! i) = None
        \<and> message (out ! i)
            = Some (''Error sending request for component '' @ componentName (records ! i) @ '': '' @ e)
        \<and> str_includes (the (message (out ! i))) (componentName (records ! i))"
  proof (intro conjI allI impI)
    fix e
    assume a: "connection ENDPOINT_ENRICHMENT (requestBody (records ! i)) = Inl e"
    show "response (out ! i) = None" by (simp add: bad [OF a])
    show "message (out ! i)
        = Some (''Error sending request for component '' @ componentName (records ! i) @ '': '' @ e)"
      by (simp add: bad [OF a])
    show "str_includes (the (message (out ! i))) (componentName (records ! i))"
      using inc [of e] by (simp add: bad [OF a])
  qed
  have created: "\<forall>fs sourceComponents resp.
        records = createEnrichmentRequestRecords fs sourceComponents
      \<and> connection ENDPOINT_ENRICHMENT (requestBody (records ! i)) = Inr resp
      \<longrightarrow> message (out ! i) = None"
  proof (intro allI impI)
    fix fs sourceComponents resp
    assume a: "records = createEnrichmentRequestRecords fs sourceComponents
      \<and> connection ENDPOINT_ENRICHMENT (requestBody (records ! i)) = Inr resp"
    then have a1: "records = createEnrichmentRequestRecords fs sourceComponents"
      and a2: "connection ENDPOINT_ENRICHMENT (requestBody (records ! i)) = Inr resp"
      by blast+
    have none: "message (records ! i) = None" by (rule fresh [OF a1])
    show "message (out ! i) = None" using none by (simp add: ok [OF a2])
  qed
  show ?thesis
    by (rule exI [of _ out]) (intro conjI sent only success failure created)
qed

theorem dispatch_sets_response_or_message_witness:
  "{..<length [exampleRecord ''alpha'', exampleRecord ''beta'']} \<subseteq> set [1, 0]
   \<and> sendEnrichmentRequests exampleConnection [1, 0] [exampleRecord ''alpha'', exampleRecord ''beta'']
     = Some [(exampleRecord ''alpha'')\<lparr>response := Some exampleResponse\<rparr>,
             (exampleRecord ''beta'')\<lparr>response := None,
                message := Some ''Error sending request for component beta: socket hang up''\<rparr>]
   \<and> exampleConnection ENDPOINT_ENRICHMENT (requestBody (exampleRecord ''beta'')) = Inl ''socket hang up''
   \<and> str_includes ''Error sending request for component beta: socket hang up'' ''beta''
   \<and> exampleConnection ENDPOINT_ENRICHMENT (requestBody (exampleRecord ''alpha'')) = Inr exampleResponse
   \<and> message ((exampleRecord ''alpha'')\<lparr>response := Some exampleResponse\<rparr>) = None"
proof -
  let ?records = "[exampleRecord ''alpha'', exampleRecord ''beta'']"
  have complete: "{..<length ?records} \<subseteq> set [1, 0::nat]" by auto
  have i: "1 < length ?records" by simp
  from dispatch_sets_response_or_message [OF complete i, of exampleConnection]
  obtain out where sent: "sendEnrichmentRequests exampleConnection [1, 0] ?records = Some out"
    and failure: "\<forall>e. exampleConnection ENDPOINT_ENRICHMENT (requestBody (?records ! 1)) = Inl e
      \<longrightarrow> response (out ! 1) = None
        \<and> message (out ! 1)
            = Some (''Error sending request for component '' @ componentName (?records ! 1) @ '': '' @ e)
        \<and> str_includes (the (message (out ! 1))) (componentName (?records ! 1))"
    by blast
  have failed: "exampleConnection ENDPOINT_ENRICHMENT (requestBody (?records ! 1)) = Inl ''socket hang up''"
    using example_answers(2) by simp
  have inc: "str_includes (the (message (out ! 1))) (componentName (?records ! 1))"
    using failure failed by blast
  have out: "out = [(exampleRecord ''alpha'')\<lparr>response := Some exampleResponse\<rparr>,
      (exampleRecord ''beta'')\<lparr>response := None,
        message := Some ''Error sending request for component beta: socket hang up''\<rparr>]"
    using sent example_dispatch by simp
  have "str_includes ''Error sending request for component beta: socket hang up'' ''beta''"
    using inc unfolding out by (simp add: exampleRecord_def)
  then show ?thesis
    using complete example_dispatch example_answers by (simp add: exampleRecord_def)
qed

section \<open>Properties of the merge\<close>

lemma mergeFile_applyEffect:
  "mergeFile lib st file = applyEffect st (fileEffect lib (fst st) (snd st) file)"
  by (simp add: mergeFile_def fileEffect_def writeFile_def
      split: option.splits list.splits sum.splits)

lemma findIndex_Some:
  "findIndex p xs = Some k \<Longrightarrow> k < length xs \<and> p (xs ! k)"
proof (induction xs arbitrary: k)
  case Nil
  then show ?case by simp
next
  case (Cons x xs)
  then show ?case by (auto split: if_splits)
qed

lemma findIndex_erase:
  "findIndex (\<lambda>r. componentName r = n) (map eraseMessage rs) = findIndex (\<lambda>r. componentName r = n) rs"
  by (induction rs) (simp_all add: eraseMessage_def)

lemma response_erase: "response (eraseMessage r) = response r"
  by (simp add: eraseMessage_def)

lemma erase_nth:
  assumes "map eraseMessage rs' = map eraseMessage rs" and "k < length rs"
  shows "eraseMessage (rs' ! k) = eraseMessage (rs ! k)"
proof -
  have "length rs' = length rs" using assms(1) by (rule map_eq_imp_length_eq)
  then have "map eraseMessage rs' ! k = eraseMessage (rs' ! k)"
    and "map eraseMessage rs ! k = eraseMessage (rs ! k)"
    using assms(2) by simp_all
  then show ?thesis using assms(1) by simp
qed

lemma fileEffect_cong:
  assumes same: "map eraseMessage rs' = map eraseMessage rs"
    and err: "fs_writeError fs' = fs_writeError fs"
  shows "fileEffect lib rs' fs' file = fileEffect lib rs fs file"
proof -
  let ?p = "\<lambda>r. componentName r = fr_componentName file"
  have idx: "findIndex ?p rs' = findIndex ?p rs"
    using same findIndex_erase [of "fr_componentName file" rs']
      findIndex_erase [of "fr_componentName file" rs] by simp
  show ?thesis
  proof (cases "findIndex ?p rs")
    case None
    then show ?thesis using idx by (simp add: fileEffect_def)
  next
    case (Some k)
    then have "k < length rs" using findIndex_Some by blast
    then have resp: "response (rs' ! k) = response (rs ! k)"
      using erase_nth [OF same] response_erase by metis
    have w: "fs_writeError fs' (filePath file) = fs_writeError fs (filePath file)"
      using err by simp
    show ?thesis
      by (simp add: fileEffect_def idx Some resp w split: option.splits list.splits sum.splits)
  qed
qed

lemma erase_setMessage: "map eraseMessage (setMessage rs k e) = map eraseMessage rs"
proof (cases "k < length rs")
  case True
  have "map eraseMessage (rs[k := (rs ! k)\<lparr>message := Some e\<rparr>])
      = (map eraseMessage rs)[k := eraseMessage ((rs ! k)\<lparr>message := Some e\<rparr>)]"
    by (rule map_update)
  also have "eraseMessage ((rs ! k)\<lparr>message := Some e\<rparr>) = map eraseMessage rs ! k"
    using True by (simp add: eraseMessage_def)
  finally show ?thesis by (simp add: setMessage_def)
next
  case False
  then show ?thesis by (simp add: setMessage_def list_update_beyond)
qed

lemma applyEffect_erase: "map eraseMessage (fst (applyEffect st e)) = map eraseMessage (fst st)"
  by (cases e) (simp_all add: erase_setMessage)

lemma applyEffect_writeError: "fs_writeError (snd (applyEffect st e)) = fs_writeError (snd st)"
  by (cases e) simp_all

lemma loop_effects:
  "foldl (mergeFile lib) st fileResults
     = foldl applyEffect st (map (fileEffect lib (fst st) (snd st)) fileResults)"
proof (induction fileResults arbitrary: st)
  case Nil
  show ?case by simp
next
  case (Cons fileResult fileResults)
  let ?st1 = "mergeFile lib st fileResult"
  have st1: "?st1 = applyEffect st (fileEffect lib (fst st) (snd st) fileResult)"
    by (rule mergeFile_applyEffect)
  have "fileEffect lib (fst ?st1) (snd ?st1) f = fileEffect lib (fst st) (snd st) f" for f
    unfolding st1 by (rule fileEffect_cong) (simp_all add: applyEffect_erase applyEffect_writeError)
  then have eq: "map (fileEffect lib (fst ?st1) (snd ?st1)) fileResults
      = map (fileEffect lib (fst st) (snd st)) fileResults"
    by simp
  have "foldl (mergeFile lib) st (fileResult # fileResults) = foldl (mergeFile lib) ?st1 fileResults"
    by simp
  also have "\<dots> = foldl applyEffect ?st1 (map (fileEffect lib (fst ?st1) (snd ?st1)) fileResults)"
    by (rule Cons.IH)
  also have "\<dots> = foldl applyEffect ?st1 (map (fileEffect lib (fst st) (snd st)) fileResults)"
    by (simp only: eq)
  also have "\<dots> = foldl applyEffect st
      (map (fileEffect lib (fst st) (snd st)) (fileResult # fileResults))"
    by (simp only: st1 list.map foldl_Cons)
  finally show ?case .
qed

lemma effects_erase: "map eraseMessage (fst (foldl applyEffect st es)) = map eraseMessage (fst st)"
  by (induction es arbitrary: st) (simp_all add: applyEffect_erase)

lemma effects_length: "length (fst (foldl applyEffect st es)) = length (fst st)"
  using effects_erase [of st es] map_eq_imp_length_eq by blast

lemma effects_fs_only: "snd (foldl applyEffect (rs, fs) es) = snd (foldl applyEffect (rs', fs) es)"
proof (induction es arbitrary: rs rs' fs)
  case Nil
  show ?case by simp
next
  case (Cons e es)
  show ?case
  proof (cases e)
    case NoEffect
    then show ?thesis using Cons.IH by simp
  next
    case (SetMessage k t)
    then show ?thesis using Cons.IH by simp
  next
    case (WriteFile p t)
    then show ?thesis using Cons.IH by simp
  qed
qed

lemma effects_record_only:
  assumes "length rs = length rs'" and "j < length rs" and "rs ! j = rs' ! j"
  shows "fst (foldl applyEffect (rs, fs) es) ! j = fst (foldl applyEffect (rs', fs') es) ! j"
  using assms
proof (induction es arbitrary: rs rs' fs fs')
  case Nil
  then show ?case by simp
next
  case (Cons e es)
  show ?case
  proof (cases e)
    case NoEffect
    then show ?thesis using Cons by simp
  next
    case (SetMessage k t)
    have "length (setMessage rs k t) = length (setMessage rs' k t)"
      using Cons.prems by (simp add: setMessage_def)
    moreover have "j < length (setMessage rs k t)"
      using Cons.prems by (simp add: setMessage_def)
    moreover have "setMessage rs k t ! j = setMessage rs' k t ! j"
      using Cons.prems by (cases "j = k") (simp_all add: setMessage_def)
    ultimately show ?thesis
      using SetMessage Cons.IH [of "setMessage rs k t" "setMessage rs' k t" fs fs'] by simp
  next
    case (WriteFile p t)
    then show ?thesis using Cons by simp
  qed
qed

lemma effects_untouched:
  assumes "\<forall>e. SetMessage j e \<notin> set es"
  shows "fst (foldl applyEffect st es) ! j = fst st ! j"
  using assms
proof (induction es arbitrary: st)
  case Nil
  show ?case by simp
next
  case (Cons e es)
  have "fst (applyEffect st e) ! j = fst st ! j"
  proof (cases e)
    case (SetMessage k t)
    then have "k \<noteq> j" using Cons.prems by auto
    then show ?thesis using SetMessage by (simp add: setMessage_def)
  qed simp_all
  then show ?case using Cons by simp
qed


lemma effects_last_message:
  assumes "k < length (fst st)" and "\<forall>e'. SetMessage k e' \<notin> set es2"
  shows "message (fst (foldl applyEffect st (es1 @ SetMessage k e # es2)) ! k) = Some e"
proof -
  let ?st1 = "foldl applyEffect st es1"
  have len: "k < length (fst ?st1)" using assms(1) by (simp add: effects_length)
  have "fst (foldl applyEffect st (es1 @ SetMessage k e # es2)) ! k
      = fst (applyEffect ?st1 (SetMessage k e)) ! k"
    using effects_untouched [OF assms(2), of "applyEffect ?st1 (SetMessage k e)"] by simp
  then show ?thesis using len by (simp add: setMessage_def)
qed

lemma readXml_append:
  "readComponentXmlFilesInParallel fs (xs @ ys)
     = readComponentXmlFilesInParallel fs xs @ readComponentXmlFilesInParallel fs ys"
  by (simp add: readComponentXmlFilesInParallel_def nonNull_append)

lemma readXml_single:
  "readComponentXmlFilesInParallel fs [c] = nonNull (xmlReadOf fs c)"
  by (simp add: readComponentXmlFilesInParallel_def)

lemma readXml_insert:
  "readComponentXmlFilesInParallel fs (pre @ c # post)
     = readComponentXmlFilesInParallel fs pre @ nonNull (xmlReadOf fs c)
       @ readComponentXmlFilesInParallel fs post"
  using readXml_append [of fs pre "[c] @ post"] readXml_append [of fs "[c]" post]
  by (simp add: readXml_single)

lemma xmlReadOf_Some:
  assumes "Some f \<in> set (xmlReadOf fs c)"
  shows "readFile fs (filePath f) = Some (fileContents f)
    \<and> truthyName c = Some (fr_componentName f) \<and> xml c = Some (filePath f)"
proof (cases "componentNameOf c")
  case None
  then show ?thesis using assms by (simp add: xmlReadOf_def)
next
  case name: (Some n)
  show ?thesis
  proof (cases "xml c")
    case None
    then show ?thesis using assms name by (simp add: xmlReadOf_def)
  next
    case (Some path)
    then show ?thesis
      using assms name
      by (auto simp: xmlReadOf_def readFileMetadata_def truthyName_def
          split: option.splits if_splits)
  qed
qed

lemma read_xml_files:
  assumes "f \<in> set (readComponentXmlFilesInParallel fs sourceComponents)"
  shows "readFile fs (filePath f) = Some (fileContents f)
    \<and> (\<exists>c\<in>set sourceComponents. truthyName c = Some (fr_componentName f) \<and> xml c = Some (filePath f))"
proof -
  from assms obtain c where c: "c \<in> set sourceComponents" and f: "Some f \<in> set (xmlReadOf fs c)"
    by (auto simp: readComponentXmlFilesInParallel_def set_nonNull)
  show ?thesis using xmlReadOf_Some [OF f] c by blast
qed

lemma updateMetadataFiles_effects:
  "updateMetadataFiles lib sourceComponents records fs
     = foldl applyEffect (records, fs)
         (map (fileEffect lib records fs) (readComponentXmlFilesInParallel fs sourceComponents))"
  using loop_effects [of lib "(records, fs)"] by (simp add: updateMetadataFiles_def)


lemma fileEffect_SetMessage:
  assumes "fileEffect lib records fs f = SetMessage k e"
  shows "k < length records \<and> componentName (records ! k) = fr_componentName f
    \<and> response (records ! k) \<noteq> None"
proof -
  from assms have idx: "findIndex (\<lambda>r. componentName r = fr_componentName f) records = Some k"
    and resp: "response (records ! k) \<noteq> None"
    by (auto simp: fileEffect_def split: if_splits option.splits list.splits sum.splits)
  show ?thesis using findIndex_Some [OF idx] resp by simp
qed


lemma example_decoded:
  "utf8Decode examplePlainXml = examplePlainXml"
  "utf8Decode ''<broken'' = ''<broken''"
  "utf8Decode exampleOptOutXml = exampleOptOutXml"
  "utf8Decode exampleLatin1Xml
     = ''<LightningComponentBundle><!-- caf'' @ REPLACEMENT
       @ '' --><ai><skipUplift>true</skipUplift></ai></LightningComponentBundle>''"
  by (simp_all add: utf8Decode_def REPLACEMENT_def examplePlainXml_def exampleOptOutXml_def
      exampleLatin1Xml_def)

lemma example_meta: "isMetaXmlFile (examplePath ''alpha'')" "isMetaXmlFile (examplePath ''beta'')"
  "isMetaXmlFile (examplePath ''gamma'')" "isMetaXmlFile (examplePath ''epsilon'')"
  by (simp_all add: isMetaXmlFile_def basename_def endsWith_def examplePath_def)

lemma example_read:
  "xmlReadOf exampleFs (exampleComponent ''alpha'')
     = [Some \<lparr>fr_componentName = ''alpha'', filePath = examplePath ''alpha'',
               fileContents = examplePlainXml, fr_mimeType = ''application/xml''\<rparr>]"
  "xmlReadOf exampleFs (exampleComponent ''beta'')
     = [Some \<lparr>fr_componentName = ''beta'', filePath = examplePath ''beta'',
               fileContents = ''<broken'', fr_mimeType = ''application/xml''\<rparr>]"
  "xmlReadOf exampleFs (exampleComponent ''gamma'')
     = [Some \<lparr>fr_componentName = ''gamma'', filePath = examplePath ''gamma'',
               fileContents = exampleOptOutXml, fr_mimeType = ''application/xml''\<rparr>]"
  "xmlReadOf exampleFs (exampleComponent ''epsilon'')
     = [Some \<lparr>fr_componentName = ''epsilon'', filePath = examplePath ''epsilon'',
               fileContents = examplePlainXml, fr_mimeType = ''application/xml''\<rparr>]"
  "xmlReadOf exampleFs (exampleComponent ''delta'') = [None]"
  by (simp_all add: xmlReadOf_def componentNameOf_def readFileMetadata_def readFile_def
      example_decoded exampleFs_def exampleComponent_def examplePath_def
      getMimeTypeFromExtension_def extname_def basename_def toLowerCase_def MIME_TYPES_def Let_def)

lemma example_update:
  "updateMetaXml exampleLibrary examplePlainXml exampleResult = Inr exampleBuiltXml"
  "updateMetaXml exampleLibrary ''<broken'' exampleResult = Inl ''Failed to parse XML: Unclosed tag''"
  "updateMetaXml exampleLibrary exampleOptOutXml exampleResult = Inr exampleOptOutXml"
    apply (simp_all add: updateMetaXml_def exampleLibrary_def failedToParse_def skipUpliftOf_def
      lookupProp_def optedOut_def toLowerCase_def newAi_def Let_def)
    apply (simp_all add: examplePlainXml_def exampleOptOutXml_def exampleBuiltXml_def
      exampleResult_def trim_def collapseBlankLines_def isWhiteSpace_def)
  done


lemma example_files:
  "readComponentXmlFilesInParallel exampleFs [exampleComponent ''beta'', exampleComponent ''alpha'']
     = [\<lparr>fr_componentName = ''beta'', filePath = examplePath ''beta'',
          fileContents = ''<broken'', fr_mimeType = ''application/xml''\<rparr>,
        \<lparr>fr_componentName = ''alpha'', filePath = examplePath ''alpha'',
          fileContents = examplePlainXml, fr_mimeType = ''application/xml''\<rparr>]"
  by (simp add: readComponentXmlFilesInParallel_def example_read nonNull_Cons nonNull_Nil)

lemma example_names:
  "componentName (exampleEnriched n) = n"
  "response (exampleEnriched n) = Some exampleResponse"
  "message (exampleEnriched n) = None"
  "results exampleResponse = [exampleResult]"
  "truthyName (exampleComponent ''alpha'') = Some ''alpha''"
  "truthyName (exampleComponent ''delta'') = Some ''delta''"
  "xml (exampleComponent n) = Some (examplePath n)"
  by (simp_all add: exampleEnriched_def exampleRecord_def exampleResponse_def exampleComponent_def
      truthyName_def componentNameOf_def)

lemma example_merge:
  "updateMetadataFiles exampleLibrary [exampleComponent ''beta'', exampleComponent ''alpha'']
       [exampleEnriched ''alpha'', exampleEnriched ''beta''] exampleFs
     = ([exampleEnriched ''alpha'',
         (exampleEnriched ''beta'')\<lparr>message := Some ''Failed to parse XML: Unclosed tag''\<rparr>],
        exampleFs\<lparr>fs_content := (fs_content exampleFs)(examplePath ''alpha'' \<mapsto> exampleBuiltXml)\<rparr>)"
  by (simp add: updateMetadataFiles_def example_files mergeFile_def example_meta example_names
      example_update setMessage_def writeFile_def)
     (simp add: exampleFs_def examplePath_def setMessage_def)



text \<open>
  The three outcomes of a round that reaches the \<^verbatim>\<open>try\<close>, on the examples: the file
  of \<^verbatim>\<open>alpha\<close> is rewritten, the parse error of \<^verbatim>\<open>beta\<close> and the write error of
  \<^verbatim>\<open>epsilon\<close> become messages.
\<close>

lemma example_write_failure:
  "updateMetadataFiles exampleLibrary [exampleComponent ''epsilon''] [exampleEnriched ''epsilon''] exampleFs
     = ([(exampleEnriched ''epsilon'')\<lparr>message := Some ''EACCES: permission denied''\<rparr>], exampleFs)"
  by (simp add: updateMetadataFiles_def readComponentXmlFilesInParallel_def example_read
      nonNull_Cons nonNull_Nil mergeFile_def example_meta example_names example_update
      setMessage_def writeFile_def)
     (simp add: exampleFs_def examplePath_def setMessage_def)


lemma erase_eq_iff:
  "eraseMessage a = eraseMessage b \<longleftrightarrow> a = b\<lparr>message := message a\<rparr>"
  by (cases a, cases b) (auto simp: eraseMessage_def)

lemma fileEffect_failure:
  assumes meta: "isMetaXmlFile (filePath f)"
    and found: "findIndex (\<lambda>r. componentName r = fr_componentName f) records = Some k"
    and resp: "response (records ! k) = Some resp"
    and first: "results resp = res # rest"
    and fails: "updateMetaXml lib (fileContents f) res = Inl err
       \<or> ((\<exists>t. updateMetaXml lib (fileContents f) res = Inr t) \<and> fs_writeError fs (filePath f) = Some err)"
  shows "fileEffect lib records fs f = SetMessage k err"
  using assms by (auto simp: fileEffect_def)

lemma no_later_message:
  assumes later: "\<forall>c'\<in>set post. truthyName c' \<noteq> Some n"
    and name: "k < length records \<Longrightarrow> componentName (records ! k) = n"
  shows "SetMessage k e \<notin> set (map (fileEffect lib records fs) (readComponentXmlFilesInParallel fs post))"
proof
  assume "SetMessage k e \<in> set (map (fileEffect lib records fs) (readComponentXmlFilesInParallel fs post))"
  then obtain f where f: "f \<in> set (readComponentXmlFilesInParallel fs post)"
    and e: "fileEffect lib records fs f = SetMessage k e"
    by auto
  from fileEffect_SetMessage [OF e] have "fr_componentName f = n"
    using name by simp
  then show False
    using read_xml_files [OF f] later by auto
qed

lemma failed_merge_effects:
  assumes read: "xmlReadOf fs c = [Some f]"
    and meta: "isMetaXmlFile (filePath f)"
    and found: "findIndex (\<lambda>r. componentName r = fr_componentName f) records = Some k"
    and resp: "response (records ! k) = Some resp"
    and first: "results resp = res # rest"
    and fails: "updateMetaXml lib (fileContents f) res = Inl err
       \<or> ((\<exists>t. updateMetaXml lib (fileContents f) res = Inr t) \<and> fs_writeError fs (filePath f) = Some err)"
  shows "map (fileEffect lib records fs) (readComponentXmlFilesInParallel fs (pre @ c # post))
     = map (fileEffect lib records fs) (readComponentXmlFilesInParallel fs pre)
       @ SetMessage k err
       # map (fileEffect lib records fs) (readComponentXmlFilesInParallel fs post)"
proof -
  have "fileEffect lib records fs f = SetMessage k err"
    by (rule fileEffect_failure [OF meta found resp first fails])
  then show ?thesis
    using readXml_insert [of fs pre c post] read by (simp add: nonNull_Cons nonNull_Nil)
qed

lemma failed_merge_message:
  assumes read: "xmlReadOf fs c = [Some f]"
    and meta: "isMetaXmlFile (filePath f)"
    and found: "findIndex (\<lambda>r. componentName r = fr_componentName f) records = Some k"
    and resp: "response (records ! k) = Some resp"
    and first: "results resp = res # rest"
    and fails: "updateMetaXml lib (fileContents f) res = Inl err
       \<or> ((\<exists>t. updateMetaXml lib (fileContents f) res = Inr t) \<and> fs_writeError fs (filePath f) = Some err)"
    and later: "\<forall>c'\<in>set post. truthyName c' \<noteq> Some (fr_componentName f)"
  shows "message (fst (updateMetadataFiles lib (pre @ c # post) records fs) ! k) = Some err"
proof -
  have k: "k < length records" and name: "componentName (records ! k) = fr_componentName f"
    using findIndex_Some [OF found] by simp_all
  have none: "\<forall>e'. SetMessage k e'
      \<notin> set (map (fileEffect lib records fs) (readComponentXmlFilesInParallel fs post))"
    using no_later_message [OF later, of k records] name by blast
  show ?thesis
    unfolding updateMetadataFiles_effects
      failed_merge_effects [OF read meta found resp first fails]
    by (rule effects_last_message) (use k none in simp_all)
qed

text \<open>
  C8. Let the support file of component \<open>c\<close> be read, let \<open>k\<close> be the record that
  \<^verbatim>\<open>find\<close> answers for it, with a response and a first result, and let
  \<^verbatim>\<open>updateMetaXml\<close> throw on it, or the write of its result be rejected, with message
  \<open>err\<close>. Then the round for that file returns, with \<open>err\<close> as the message of record
  \<open>k\<close> and nothing written, and the whole merge returns too: all records come back,
  every record but \<open>k\<close> and the whole file system are what the merge without \<open>c\<close>
  makes them, record \<open>k\<close> differs from that run in its message only, and when no later
  component has the same name that message is \<open>err\<close>.
\<close>

theorem merge_failure_is_captured:
  assumes read: "xmlReadOf fs c = [Some f]"
    and meta: "isMetaXmlFile (filePath f)"
    and found: "findIndex (\<lambda>r. componentName r = fr_componentName f) records = Some k"
    and resp: "response (records ! k) = Some resp"
    and first: "results resp = res # rest"
    and fails: "updateMetaXml lib (fileContents f) res = Inl err
       \<or> ((\<exists>t. updateMetaXml lib (fileContents f) res = Inr t) \<and> fs_writeError fs (filePath f) = Some err)"
  shows "mergeFile lib (records, fs) f = (setMessage records k err, fs)
    \<and> (\<exists>rs1 rs2 fs'.
          updateMetadataFiles lib (pre @ c # post) records fs = (rs1, fs')
        \<and> updateMetadataFiles lib (pre @ post) records fs = (rs2, fs')
        \<and> length rs1 = length records
        \<and> (\<forall>j<length records. j \<noteq> k \<longrightarrow> rs1 ! j = rs2 ! j)
        \<and> rs1 ! k = (rs2 ! k)\<lparr>message := message (rs1 ! k)\<rparr>
        \<and> ((\<forall>c'\<in>set post. truthyName c' \<noteq> Some (fr_componentName f))
              \<longrightarrow> message (rs1 ! k) = Some err))"
proof -
  let ?E = "\<lambda>cs. map (fileEffect lib records fs) (readComponentXmlFilesInParallel fs cs)"
  have eff: "fileEffect lib records fs f = SetMessage k err"
    by (rule fileEffect_failure [OF meta found resp first fails])
  have k: "k < length records" and name: "componentName (records ! k) = fr_componentName f"
    using findIndex_Some [OF found] by simp_all
  have round: "mergeFile lib (records, fs) f = (setMessage records k err, fs)"
    using mergeFile_applyEffect [of lib "(records, fs)" f] eff by simp
  have with_c: "?E (pre @ c # post) = ?E pre @ SetMessage k err # ?E post"
    by (rule failed_merge_effects [OF read meta found resp first fails])
  have without_c: "?E (pre @ post) = ?E pre @ ?E post"
    by (simp add: readXml_append)
  let ?st = "foldl applyEffect (records, fs) (?E pre)"
  let ?run1 = "foldl applyEffect (setMessage (fst ?st) k err, snd ?st) (?E post)"
  let ?run2 = "foldl applyEffect (fst ?st, snd ?st) (?E post)"
  have run1: "updateMetadataFiles lib (pre @ c # post) records fs = ?run1"
    unfolding updateMetadataFiles_effects with_c by simp
  have run2: "updateMetadataFiles lib (pre @ post) records fs = ?run2"
    unfolding updateMetadataFiles_effects without_c by simp
  have fs_same: "snd ?run1 = snd ?run2"
    by (rule effects_fs_only)
  have len_st: "length (fst ?st) = length records"
    by (simp add: effects_length)
  have len1: "length (fst ?run1) = length records"
    using len_st by (simp add: effects_length setMessage_def)
  have others: "fst ?run1 ! j = fst ?run2 ! j" if "j < length records" and "j \<noteq> k" for j
  proof (rule effects_record_only)
    show "length (setMessage (fst ?st) k err) = length (fst ?st)"
      by (simp add: setMessage_def)
    show "j < length (setMessage (fst ?st) k err)"
      using that len_st by (simp add: setMessage_def)
    show "setMessage (fst ?st) k err ! j = fst ?st ! j"
      using that by (simp add: setMessage_def)
  qed
  have "map eraseMessage (fst ?run1) = map eraseMessage (fst ?run2)"
    by (simp add: effects_erase erase_setMessage)
  then have "eraseMessage (fst ?run1 ! k) = eraseMessage (fst ?run2 ! k)"
    using erase_nth [of "fst ?run1" "fst ?run2" k] k len_st by (simp add: effects_length)
  then have at_k: "fst ?run1 ! k = (fst ?run2 ! k)\<lparr>message := message (fst ?run1 ! k)\<rparr>"
    by (simp add: erase_eq_iff)
  have last: "message (fst ?run1 ! k) = Some err"
    if later: "\<forall>c'\<in>set post. truthyName c' \<noteq> Some (fr_componentName f)"
    using failed_merge_message [OF read meta found resp first fails later, of pre] run1 by simp
  have "updateMetadataFiles lib (pre @ c # post) records fs = (fst ?run1, snd ?run1)"
    using run1 by simp
  moreover have "updateMetadataFiles lib (pre @ post) records fs = (fst ?run2, snd ?run1)"
    using run2 fs_same by simp
  ultimately show ?thesis
    using round len1 others at_k last by blast
qed

theorem merge_failure_is_captured_witness:
  "updateMetaXml exampleLibrary ''<broken'' exampleResult = Inl ''Failed to parse XML: Unclosed tag''
   \<and> message (fst (updateMetadataFiles exampleLibrary [exampleComponent ''beta'', exampleComponent ''alpha'']
         [exampleEnriched ''alpha'', exampleEnriched ''beta''] exampleFs) ! 1)
       = Some ''Failed to parse XML: Unclosed tag''
   \<and> fst (updateMetadataFiles exampleLibrary [exampleComponent ''beta'', exampleComponent ''alpha'']
         [exampleEnriched ''alpha'', exampleEnriched ''beta''] exampleFs) ! 0
       = fst (updateMetadataFiles exampleLibrary [exampleComponent ''alpha'']
         [exampleEnriched ''alpha'', exampleEnriched ''beta''] exampleFs) ! 0
   \<and> fs_content (snd (updateMetadataFiles exampleLibrary [exampleComponent ''beta'', exampleComponent ''alpha'']
         [exampleEnriched ''alpha'', exampleEnriched ''beta''] exampleFs)) (examplePath ''alpha'')
       = Some exampleBuiltXml"
proof -
  let ?f = "\<lparr>fr_componentName = ''beta'', filePath = examplePath ''beta'',
      fileContents = ''<broken'', fr_mimeType = ''application/xml''\<rparr>"
  let ?records = "[exampleEnriched ''alpha'', exampleEnriched ''beta'']"
  have read: "xmlReadOf exampleFs (exampleComponent ''beta'') = [Some ?f]"
    by (rule example_read)
  have meta: "isMetaXmlFile (filePath ?f)"
    by (simp add: example_meta)
  have found: "findIndex (\<lambda>r. componentName r = fr_componentName ?f) ?records = Some 1"
    by (simp add: example_names)
  have resp: "response (?records ! 1) = Some exampleResponse"
    by (simp add: example_names)
  have first: "results exampleResponse = exampleResult # []"
    by (rule example_names)
  have fails: "updateMetaXml exampleLibrary (fileContents ?f) exampleResult
        = Inl ''Failed to parse XML: Unclosed tag''
      \<or> ((\<exists>t. updateMetaXml exampleLibrary (fileContents ?f) exampleResult = Inr t)
          \<and> fs_writeError exampleFs (filePath ?f) = Some ''Failed to parse XML: Unclosed tag'')"
    by (simp add: example_update)
  have later: "\<forall>c'\<in>set [exampleComponent ''alpha'']. truthyName c' \<noteq> Some (fr_componentName ?f)"
    by (simp add: example_names)
  from merge_failure_is_captured [OF read meta found resp first fails, of "[]" "[exampleComponent ''alpha'']"]
  obtain rs1 rs2 fs' where
    run1: "updateMetadataFiles exampleLibrary ([] @ exampleComponent ''beta'' # [exampleComponent ''alpha''])
        ?records exampleFs = (rs1, fs')"
    and run2: "updateMetadataFiles exampleLibrary ([] @ [exampleComponent ''alpha'']) ?records exampleFs = (rs2, fs')"
    and others: "\<forall>j<length ?records. j \<noteq> 1 \<longrightarrow> rs1 ! j = rs2 ! j"
    and msg: "(\<forall>c'\<in>set [exampleComponent ''alpha'']. truthyName c' \<noteq> Some (fr_componentName ?f))
        \<longrightarrow> message (rs1 ! 1) = Some ''Failed to parse XML: Unclosed tag''"
    by blast
  have same0: "rs1 ! 0 = rs2 ! 0" using others by simp
  have msg1: "message (rs1 ! 1) = Some ''Failed to parse XML: Unclosed tag''"
    using msg later by blast
  have a: "updateMetaXml exampleLibrary ''<broken'' exampleResult = Inl ''Failed to parse XML: Unclosed tag''"
    by (rule example_update)
  have b: "message (fst (updateMetadataFiles exampleLibrary [exampleComponent ''beta'', exampleComponent ''alpha'']
        ?records exampleFs) ! 1) = Some ''Failed to parse XML: Unclosed tag''"
    using run1 msg1 by simp
  have c: "fst (updateMetadataFiles exampleLibrary [exampleComponent ''beta'', exampleComponent ''alpha'']
        ?records exampleFs) ! 0
      = fst (updateMetadataFiles exampleLibrary [exampleComponent ''alpha''] ?records exampleFs) ! 0"
    using run1 run2 same0 by simp
  have d: "fs_content (snd (updateMetadataFiles exampleLibrary [exampleComponent ''beta'', exampleComponent ''alpha'']
        ?records exampleFs)) (examplePath ''alpha'') = Some exampleBuiltXml"
    by (simp add: example_merge)
  show ?thesis using a b c d by blast
qed

text \<open>
  C9 as stated fails: the support file of \<^verbatim>\<open>delta\<close> cannot be read, its record has a
  response, and after the merge the message of that record is still unset.
\<close>

theorem unreadable_support_file_counterexample:
  "readFile exampleFs (examplePath ''delta'') = None
   \<and> response (exampleEnriched ''delta'') = Some exampleResponse
   \<and> message (hd (fst (updateMetadataFiles exampleLibrary [exampleComponent ''delta'']
         [exampleEnriched ''delta''] exampleFs))) = None"
  by (simp add: updateMetadataFiles_def readComponentXmlFilesInParallel_def example_read
      nonNull_Cons nonNull_Nil example_names)
     (simp add: readFile_def exampleFs_def examplePath_def)

text \<open>
  C9, as the code has it. When the support file of a component cannot be read during the
  merge step, no error is captured: the read error is swallowed and the file is left out,
  so the merge is the merge without that component. If no other component has its name,
  every record of that name comes back as it was, its message too; the other records and
  the files are what the merge without the component makes them.
\<close>

theorem unreadable_support_file_is_dropped:
  assumes name: "truthyName c = Some n"
    and path: "xml c = Some p"
    and unreadable: "readFile fs p = None"
  shows "updateMetadataFiles lib (pre @ c # post) records fs
           = updateMetadataFiles lib (pre @ post) records fs
    \<and> ((\<forall>c'\<in>set (pre @ post). truthyName c' \<noteq> Some n)
          \<longrightarrow> (\<forall>j<length records. componentName (records ! j) = n
                \<longrightarrow> fst (updateMetadataFiles lib (pre @ c # post) records fs) ! j = records ! j))"
proof -
  have "nonNull (xmlReadOf fs c) = []"
    using name path unreadable
    by (auto simp: xmlReadOf_def readFileMetadata_def truthyName_def nonNull_Cons nonNull_Nil
        split: option.splits if_splits)
  then have files: "readComponentXmlFilesInParallel fs (pre @ c # post)
      = readComponentXmlFilesInParallel fs (pre @ post)"
    using readXml_insert [of fs pre c post] readXml_append [of fs pre post] by simp
  then have same: "updateMetadataFiles lib (pre @ c # post) records fs
      = updateMetadataFiles lib (pre @ post) records fs"
    by (simp add: updateMetadataFiles_def)
  have kept: "fst (updateMetadataFiles lib (pre @ c # post) records fs) ! j = records ! j"
    if others: "\<forall>c'\<in>set (pre @ post). truthyName c' \<noteq> Some n"
      and j: "j < length records" and nm: "componentName (records ! j) = n" for j
  proof -
    have none: "\<forall>e. SetMessage j e \<notin> set (map (fileEffect lib records fs)
        (readComponentXmlFilesInParallel fs (pre @ post)))"
      using no_later_message [OF others, of j records] nm by blast
    have "fst (updateMetadataFiles lib (pre @ post) records fs) ! j = fst (records, fs) ! j"
      unfolding updateMetadataFiles_effects by (rule effects_untouched [OF none])
    then show ?thesis by (simp add: same)
  qed
  show ?thesis using same kept by blast
qed

theorem unreadable_support_file_is_dropped_witness:
  "readFile exampleFs (examplePath ''delta'') = None
   \<and> updateMetadataFiles exampleLibrary [exampleComponent ''delta'', exampleComponent ''alpha'']
         [exampleEnriched ''delta'', exampleEnriched ''alpha''] exampleFs
       = updateMetadataFiles exampleLibrary [exampleComponent ''alpha'']
         [exampleEnriched ''delta'', exampleEnriched ''alpha''] exampleFs
   \<and> fst (updateMetadataFiles exampleLibrary [exampleComponent ''delta'', exampleComponent ''alpha'']
         [exampleEnriched ''delta'', exampleEnriched ''alpha''] exampleFs) ! 0
       = exampleEnriched ''delta''"
proof -
  have name: "truthyName (exampleComponent ''delta'') = Some ''delta''"
    and path: "xml (exampleComponent ''delta'') = Some (examplePath ''delta'')"
    by (rule example_names)+
  have unreadable: "readFile exampleFs (examplePath ''delta'') = None"
    by (simp add: readFile_def exampleFs_def examplePath_def)
  let ?records = "[exampleEnriched ''delta'', exampleEnriched ''alpha'']"
  from unreadable_support_file_is_dropped [OF name path unreadable, of exampleLibrary "[]"
      "[exampleComponent ''alpha'']" ?records]
  have same: "updateMetadataFiles exampleLibrary ([] @ exampleComponent ''delta'' # [exampleComponent ''alpha''])
        ?records exampleFs
      = updateMetadataFiles exampleLibrary ([] @ [exampleComponent ''alpha'']) ?records exampleFs"
    and kept: "(\<forall>c'\<in>set ([] @ [exampleComponent ''alpha'']). truthyName c' \<noteq> Some ''delta'')
      \<longrightarrow> (\<forall>j<length ?records. componentName (?records ! j) = ''delta''
          \<longrightarrow> fst (updateMetadataFiles exampleLibrary
                ([] @ exampleComponent ''delta'' # [exampleComponent ''alpha'']) ?records exampleFs) ! j
              = ?records ! j)"
    by blast+
  have "\<forall>c'\<in>set ([] @ [exampleComponent ''alpha'']). truthyName c' \<noteq> Some ''delta''"
    by (simp add: example_names)
  with kept have "\<forall>j<length ?records. componentName (?records ! j) = ''delta''
      \<longrightarrow> fst (updateMetadataFiles exampleLibrary
            ([] @ exampleComponent ''delta'' # [exampleComponent ''alpha'']) ?records exampleFs) ! j
          = ?records ! j"
    by blast
  then have "fst (updateMetadataFiles exampleLibrary
        ([] @ exampleComponent ''delta'' # [exampleComponent ''alpha'']) ?records exampleFs) ! 0
      = ?records ! 0"
    by (simp add: example_names)
  then show ?thesis using same unreadable by simp
qed

lemma filter_eq_nth:
  assumes "length xs = length ys"
    and "\<And>j. j < length xs \<Longrightarrow> P (xs ! j) \<longleftrightarrow> P (ys ! j)"
    and "\<And>j. j < length xs \<Longrightarrow> P (xs ! j) \<Longrightarrow> xs ! j = ys ! j"
  shows "filter P xs = filter P ys"
  using assms
proof (induction xs ys rule: list_induct2)
  case Nil
  show ?case by simp
next
  case (Cons x xs y ys)
  have same: "P x \<longleftrightarrow> P y"
    using Cons.prems(1) [of 0] by simp
  have eq: "x = y" if "P x"
    using Cons.prems(2) [of 0] that by simp
  have tail: "filter P xs = filter P ys"
  proof (rule Cons.IH)
    fix j
    assume j: "j < length xs"
    show "P (xs ! j) \<longleftrightarrow> P (ys ! j)"
      using Cons.prems(1) [of "Suc j"] j by simp
    show "xs ! j = ys ! j" if "P (xs ! j)"
      using Cons.prems(2) [of "Suc j"] j that by simp
  qed
  show ?case
  proof (cases "P x")
    case True
    then have "P y" and "x = y" using same eq by blast+
    then show ?thesis using tail by simp
  next
    case False
    then have "\<not> P y" using same by blast
    then show ?thesis using False tail by simp
  qed
qed

lemma map_response_erase: "map response (map eraseMessage rs) = map response rs"
  by (simp add: eraseMessage_def comp_def)

lemma same_responses:
  assumes "map eraseMessage rs' = map eraseMessage rs"
  shows "map response rs' = map response rs"
  using assms map_response_erase [of rs'] map_response_erase [of rs] by simp

lemma length_successOf_responses:
  "length (successOf rs) = length (filter (\<lambda>v. v \<noteq> None) (map response rs))"
  by (simp add: successOf_def filter_map comp_def)

lemma merge_keeps_buckets:
  fixes lib sourceComponents records fs
  defines "merged \<equiv> fst (updateMetadataFiles lib sourceComponents records fs)"
  shows "failOf merged = failOf records \<and> length (successOf merged) = length (successOf records)"
proof -
  let ?es = "map (fileEffect lib records fs) (readComponentXmlFilesInParallel fs sourceComponents)"
  have merged: "merged = fst (foldl applyEffect (records, fs) ?es)"
    by (simp add: merged_def updateMetadataFiles_effects)
  have erase: "map eraseMessage merged = map eraseMessage records"
    unfolding merged using effects_erase [of "(records, fs)" ?es] by simp
  then have len: "length merged = length records"
    by (rule map_eq_imp_length_eq)
  have resps: "map response merged = map response records"
    by (rule same_responses [OF erase])
  have untouched: "merged ! j = records ! j" if "j < length records" and "response (records ! j) = None" for j
  proof -
    have "\<forall>e. SetMessage j e \<notin> set ?es"
    proof (intro allI notI)
      fix e
      assume "SetMessage j e \<in> set ?es"
      then obtain f where "fileEffect lib records fs f = SetMessage j e" by auto
      from fileEffect_SetMessage [OF this] that show False by simp
    qed
    then show ?thesis
      unfolding merged using effects_untouched [of j ?es "(records, fs)"] by simp
  qed
  have "filter (\<lambda>r. response r = None) merged = filter (\<lambda>r. response r = None) records"
  proof (rule filter_eq_nth [OF len])
    fix j
    assume "j < length merged"
    then have j: "j < length records" using len by simp
    have same: "response (merged ! j) = response (records ! j)"
      using resps j len by (metis nth_map)
    show "(response (merged ! j) = None) \<longleftrightarrow> (response (records ! j) = None)"
      by (simp only: same)
    show "merged ! j = records ! j" if "response (merged ! j) = None"
      using untouched [OF j] that same by simp
  qed
  then have "failOf merged = failOf records"
    by (simp add: failOf_def)
  moreover have "length (successOf merged) = length (successOf records)"
    by (simp add: length_successOf_responses resps)
  ultimately show ?thesis by simp
qed

text \<open>
  C10. A record whose remote call succeeded and whose merge then failed with message
  \<open>err\<close> (the hypotheses of C8, and no later component of the same name) still has its
  response after the merge, and \<open>err\<close> as its message; in the metrics of the merged
  records it is one entry of the success bucket, at its place, with \<open>err\<close> as the
  entry's message, and it adds nothing to the fail bucket. The merge moves no record
  between buckets: the fail bucket and the success count are those of the records before
  the merge.
\<close>

theorem merge_error_stays_in_success_bucket:
  fixes lib :: XmlLibrary and pre post :: "SourceComponent list"
    and records :: "EnrichmentRequestRecord list" and sk :: "ComponentEnrichmentStatus list"
  assumes read: "xmlReadOf fs c = [Some f]"
    and meta: "isMetaXmlFile (filePath f)"
    and found: "findIndex (\<lambda>r. componentName r = fr_componentName f) records = Some k"
    and resp: "response (records ! k) = Some resp"
    and first: "results resp = res # rest"
    and fails: "updateMetaXml lib (fileContents f) res = Inl err
       \<or> ((\<exists>t. updateMetaXml lib (fileContents f) res = Inr t) \<and> fs_writeError fs (filePath f) = Some err)"
    and later: "\<forall>c'\<in>set post. truthyName c' \<noteq> Some (fr_componentName f)"
  defines "merged \<equiv> fst (updateMetadataFiles lib (pre @ c # post) records fs)"
  defines "m \<equiv> createEnrichmentMetrics merged sk"
  shows "response (merged ! k) = Some resp
    \<and> message (merged ! k) = Some err
    \<and> components (success m)
        = components (success (createEnrichmentMetrics (take k merged) []))
          @ [\<lparr>st_type = statusMetadataType (records ! k),
               st_componentName = Some (componentName (records ! k)),
               st_message = Some err\<rparr>]
          @ components (success (createEnrichmentMetrics (drop (Suc k) merged) []))
    \<and> components (fail m)
        = components (fail (createEnrichmentMetrics (take k merged) []))
          @ components (fail (createEnrichmentMetrics (drop (Suc k) merged) []))
    \<and> components (fail m) = components (fail (createEnrichmentMetrics records sk))
    \<and> count (success m) = count (success (createEnrichmentMetrics records sk))"
proof -
  have k: "k < length records"
    using findIndex_Some [OF found] by simp
  have msg: "message (merged ! k) = Some err"
    unfolding merged_def
    by (rule failed_merge_message [OF read meta found resp first fails later])
  have len: "length merged = length records"
    unfolding merged_def updateMetadataFiles_effects by (simp add: effects_length)
  have "map eraseMessage merged = map eraseMessage records"
    unfolding merged_def updateMetadataFiles_effects
    using effects_erase [of "(records, fs)"] by simp
  then have "eraseMessage (merged ! k) = eraseMessage (records ! k)"
    using erase_nth k by blast
  then have rec_k: "merged ! k = (records ! k)\<lparr>message := Some err\<rparr>"
    using msg by (simp add: erase_eq_iff)
  have resp_k: "response (merged ! k) = Some resp"
    using resp rec_k by simp
  have status: "componentStatus (merged ! k)
      = \<lparr>st_type = statusMetadataType (records ! k),
         st_componentName = Some (componentName (records ! k)),
         st_message = Some err\<rparr>"
    unfolding rec_k
    by (simp add: componentStatus_def statusMetadataType_def statusMessage_def split: option.splits)
  have split: "merged = take k merged @ merged ! k # drop (Suc k) merged"
    using k len by (simp add: id_take_nth_drop)
  have s1: "successOf [merged ! k] = [componentStatus (merged ! k)]"
    and f1: "failOf [merged ! k] = []"
    using resp_k by (simp_all add: successOf_def failOf_def)
  have "successOf merged = successOf (take k merged) @ successOf [merged ! k] @ successOf (drop (Suc k) merged)"
    using split successOf_append [of "take k merged" "[merged ! k] @ drop (Suc k) merged"]
      successOf_append [of "[merged ! k]" "drop (Suc k) merged"] by simp
  then have succ: "successOf merged = successOf (take k merged) @ [componentStatus (merged ! k)]
      @ successOf (drop (Suc k) merged)"
    using s1 by simp
  have "failOf merged = failOf (take k merged) @ failOf [merged ! k] @ failOf (drop (Suc k) merged)"
    using split failOf_append [of "take k merged" "[merged ! k] @ drop (Suc k) merged"]
      failOf_append [of "[merged ! k]" "drop (Suc k) merged"] by simp
  then have failed: "failOf merged = failOf (take k merged) @ failOf (drop (Suc k) merged)"
    using f1 by simp
  have buckets: "failOf merged = failOf records \<and> length (successOf merged) = length (successOf records)"
    unfolding merged_def by (rule merge_keeps_buckets)
  show ?thesis
    using resp_k msg succ failed buckets status
    by (simp add: m_def createEnrichmentMetrics_closed)
qed

theorem merge_error_stays_in_success_bucket_witness:
  "components (success (createEnrichmentMetrics
      (fst (updateMetadataFiles exampleLibrary [exampleComponent ''beta'', exampleComponent ''alpha'']
         [exampleEnriched ''alpha'', exampleEnriched ''beta''] exampleFs)) []))
     = [\<lparr>st_type = ''LightningComponentBundle'', st_componentName = Some ''alpha'', st_message = Some []\<rparr>,
        \<lparr>st_type = ''LightningComponentBundle'', st_componentName = Some ''beta'',
          st_message = Some ''Failed to parse XML: Unclosed tag''\<rparr>]
   \<and> components (fail (createEnrichmentMetrics
      (fst (updateMetadataFiles exampleLibrary [exampleComponent ''beta'', exampleComponent ''alpha'']
         [exampleEnriched ''alpha'', exampleEnriched ''beta''] exampleFs)) [])) = []"
proof -
  let ?f = "\<lparr>fr_componentName = ''beta'', filePath = examplePath ''beta'',
      fileContents = ''<broken'', fr_mimeType = ''application/xml''\<rparr>"
  let ?records = "[exampleEnriched ''alpha'', exampleEnriched ''beta'']"
  have read: "xmlReadOf exampleFs (exampleComponent ''beta'') = [Some ?f]"
    by (rule example_read)
  have meta: "isMetaXmlFile (filePath ?f)"
    by (simp add: example_meta)
  have found: "findIndex (\<lambda>r. componentName r = fr_componentName ?f) ?records = Some 1"
    by (simp add: example_names)
  have resp: "response (?records ! 1) = Some exampleResponse"
    by (simp add: example_names)
  have first: "results exampleResponse = exampleResult # []"
    by (rule example_names)
  have fails: "updateMetaXml exampleLibrary (fileContents ?f) exampleResult
        = Inl ''Failed to parse XML: Unclosed tag''
      \<or> ((\<exists>t. updateMetaXml exampleLibrary (fileContents ?f) exampleResult = Inr t)
          \<and> fs_writeError exampleFs (filePath ?f) = Some ''Failed to parse XML: Unclosed tag'')"
    by (simp add: example_update)
  have later: "\<forall>c'\<in>set [exampleComponent ''alpha'']. truthyName c' \<noteq> Some (fr_componentName ?f)"
    by (simp add: example_names)
  show ?thesis
    using merge_error_stays_in_success_bucket [OF read meta found resp first fails later, of "[]" "[]"]
    by (simp add: example_merge createEnrichmentMetrics_closed successOf_def failOf_def
        componentStatus_def statusMetadataType_def statusMessage_def)
       (simp add: exampleEnriched_def exampleRecord_def exampleType_def)
qed

section \<open>Properties of the classifier\<close>

lemma set_add_fresh:
  assumes "\<forall>x\<in>set members. fst x < a"
  shows "set_add members (a, v) = members @ [(a, v)]"
proof -
  have "a \<notin> set (map fst members)" using assms by auto
  then show ?thesis by (simp add: set_add_def)
qed

lemma parseRequestedLoop_values:
  assumes "\<forall>x\<in>set requested. fst x < next"
  shows "map snd (parseRequestedLoop registry entries next requested)
     = map snd requested @ keptEntries registry entries"
  using assms
proof (induction entries arbitrary: "next" requested)
  case Nil
  show ?case by (simp add: keptEntries_def)
next
  case (Cons entry entries)
  show ?case
  proof (cases "parseMetadataEntry registry entry")
    case None
    then show ?thesis
      using Cons.IH [OF Cons.prems] by (simp add: keptEntries_def)
  next
    case (Some parsed)
    show ?thesis
    proof (cases "isWildcarded parsed")
      case True
      have "\<forall>x\<in>set requested. fst x < Suc next" using Cons.prems by auto
      then show ?thesis
        using Some True Cons.IH [of requested "Suc next"] by (simp add: keptEntries_def)
    next
      case False
      have added: "set_add requested (next, parsed) = requested @ [(next, parsed)]"
        by (rule set_add_fresh [OF Cons.prems])
      have "\<forall>x\<in>set (requested @ [(next, parsed)]). fst x < Suc next" using Cons.prems by auto
      then show ?thesis
        using Some False added Cons.IH [of "requested @ [(next, parsed)]" "Suc next"]
        by (simp add: keptEntries_def)
    qed
  qed
qed

lemma parseRequestedComponents_values:
  "map snd (parseRequestedComponents registry entries) = keptEntries registry entries"
  using parseRequestedLoop_values [of "[]" 0 registry entries]
  by (simp add: parseRequestedComponents_def)

lemma diffOne_value: "diffOne existing x = diffOne existing (0, snd x)"
  by (simp only: diffOne_def snd_conv)

lemma filterOne_value: "filterOne m x = filterOne m (0, snd x)"
  by (simp only: filterOne_def snd_conv)

lemma diffRequestedComponents_values:
  "diffRequestedComponents sourceComponents requested
     = concat (map (\<lambda>parsed. diffOne (getExistingSourceComponentNames sourceComponents) (0, parsed))
         (map snd requested))"
  unfolding diffRequestedComponents_def map_map comp_def
  using diffOne_value by metis

lemma filterComponents_values:
  "filterComponents sourceComponents requested
     = concat (map (\<lambda>parsed. filterOne (createSourceComponentMap sourceComponents) (0, parsed))
         (map snd requested))"
  unfolding filterComponents_def map_map comp_def
  using filterOne_value by metis

lemma getComponentsToSkip_values:
  "getComponentsToSkip registry sourceComponents entries
     = concat (map (\<lambda>parsed. diffOne (getExistingSourceComponentNames sourceComponents) (0, parsed))
         (keptEntries registry entries))
       @ concat (map (\<lambda>parsed. filterOne (createSourceComponentMap sourceComponents) (0, parsed))
         (keptEntries registry entries))"
  by (simp add: getComponentsToSkip_def diffRequestedComponents_values filterComponents_values
      parseRequestedComponents_values)

lemma concat_map_named:
  assumes "\<And>parsed. mn_componentName parsed = None \<Longrightarrow> g parsed = []"
  shows "concat (map g (filter (\<lambda>parsed. mn_componentName parsed \<noteq> None) ps)) = concat (map g ps)"
  using assms by (induction ps) auto

lemma keptEntries_without_wildcards:
  "keptEntries registry (filter (\<lambda>e. \<not> isWildcardEntry registry e) entries)
     = filter (\<lambda>parsed. mn_componentName parsed \<noteq> None) (keptEntries registry entries)"
proof (induction entries)
  case Nil
  show ?case by (simp add: keptEntries_def)
next
  case (Cons entry entries)
  show ?case
  proof (cases "parseMetadataEntry registry entry")
    case None
    then show ?thesis
      using Cons.IH by (simp add: keptEntries_def isWildcardEntry_def)
  next
    case (Some parsed)
    then show ?thesis
      using Cons.IH by (auto simp: keptEntries_def isWildcardEntry_def)
  qed
qed

lemma diffOne_unnamed: "mn_componentName parsed = None \<Longrightarrow> diffOne existing (0, parsed) = []"
  by (simp add: diffOne_def)

lemma filterOne_unnamed: "mn_componentName parsed = None \<Longrightarrow> filterOne m (0, parsed) = []"
  by (simp add: filterOne_def lookupRequested_def)

lemma skip_record_name:
  assumes "s \<in> set (diffOne existing (0, parsed)) \<or> s \<in> set (filterOne m (0, parsed))"
  shows "\<exists>n. st_componentName s = Some n \<and> n \<noteq> [] \<and> mn_componentName parsed = Some n"
  using assms
  by (auto simp: diffOne_def filterOne_def lookupRequested_def skipRecord_def
      split: option.splits if_splits)

text \<open>
  C5, as the code has it. Every requested identifier that parses and whose name contains
  the wildcard marker \<^verbatim>\<open>*\<close> or is absent (the forms \<^verbatim>\<open>Kind:*\<close> and \<^verbatim>\<open>Kind\<close>) is
  ignored by the classifier: the skip records are those of the request without such
  identifiers, no skip record carries an absent name or a name with a \<^verbatim>\<open>*\<close>, and the
  components the caller keeps for dispatch are those it keeps for the request without
  such identifiers.
\<close>

theorem wildcard_identifier_is_ignored:
  fixes registry :: Registry and sourceComponents :: "SourceComponent list" and entries :: "string list"
  defines "named \<equiv> filter (\<lambda>e. \<not> isWildcardEntry registry e) entries"
  shows "getComponentsToSkip registry sourceComponents named
           = getComponentsToSkip registry sourceComponents entries
    \<and> (\<forall>s\<in>set (getComponentsToSkip registry sourceComponents entries).
          \<exists>n. st_componentName s = Some n \<and> n \<noteq> [] \<and> \<not> str_includes n ''*'')
    \<and> componentsToProcess sourceComponents (getComponentsToSkip registry sourceComponents named)
        = componentsToProcess sourceComponents (getComponentsToSkip registry sourceComponents entries)"
proof -
  let ?D = "\<lambda>parsed. diffOne (getExistingSourceComponentNames sourceComponents) (0, parsed)"
  let ?F = "\<lambda>parsed. filterOne (createSourceComponentMap sourceComponents) (0, parsed)"
  let ?kept = "keptEntries registry entries"
  have d: "concat (map ?D (filter (\<lambda>parsed. mn_componentName parsed \<noteq> None) ?kept))
      = concat (map ?D ?kept)"
    by (rule concat_map_named) (rule diffOne_unnamed)
  have f: "concat (map ?F (filter (\<lambda>parsed. mn_componentName parsed \<noteq> None) ?kept))
      = concat (map ?F ?kept)"
    by (rule concat_map_named) (rule filterOne_unnamed)
  have same: "getComponentsToSkip registry sourceComponents named
      = getComponentsToSkip registry sourceComponents entries"
    unfolding named_def getComponentsToSkip_values keptEntries_without_wildcards d f ..
  have names: "\<exists>n. st_componentName s = Some n \<and> n \<noteq> [] \<and> \<not> str_includes n ''*''"
    if "s \<in> set (getComponentsToSkip registry sourceComponents entries)" for s
  proof -
    from that obtain parsed where kept: "parsed \<in> set (keptEntries registry entries)"
      and s: "s \<in> set (diffOne (getExistingSourceComponentNames sourceComponents) (0, parsed))
        \<or> s \<in> set (filterOne (createSourceComponentMap sourceComponents) (0, parsed))"
      unfolding getComponentsToSkip_values by auto
    from skip_record_name [OF s] obtain n where n: "st_componentName s = Some n" "n \<noteq> []"
      "mn_componentName parsed = Some n"
      by blast
    have "\<not> isWildcarded parsed" using kept by (simp add: keptEntries_def)
    then have "\<not> str_includes n ''*''" using n by (simp add: isWildcarded_def)
    then show ?thesis using n by blast
  qed
  show ?thesis using same names by simp
qed


lemma example_parse:
  "parseMetadataEntry exampleRegistry ''LightningComponentBundle:Ghost''
     = Some \<lparr>mn_type = ''LightningComponentBundle'', mn_componentName = Some ''Ghost''\<rparr>"
  "parseMetadataEntry exampleRegistry ''LightningComponentBundle:all''
     = Some \<lparr>mn_type = ''LightningComponentBundle'', mn_componentName = Some ''all''\<rparr>"
  "parseMetadataEntry exampleRegistry ''LightningComponentBundle:Gh*''
     = Some \<lparr>mn_type = ''LightningComponentBundle'', mn_componentName = Some ''Gh*''\<rparr>"
  "parseMetadataEntry exampleRegistry ''LightningComponentBundle:*''
     = Some \<lparr>mn_type = ''LightningComponentBundle'', mn_componentName = None\<rparr>"
  "parseMetadataEntry exampleRegistry ''LightningComponentBundle''
     = Some \<lparr>mn_type = ''LightningComponentBundle'', mn_componentName = None\<rparr>"
  by (simp_all add: parseMetadataEntry_def split_str_def exampleRegistry_def trim_def isWhiteSpace_def Let_def)

lemma example_wildcarded:
  "\<not> isWildcarded \<lparr>mn_type = ''LightningComponentBundle'', mn_componentName = Some ''Ghost''\<rparr>"
  "\<not> isWildcarded \<lparr>mn_type = ''LightningComponentBundle'', mn_componentName = Some ''all''\<rparr>"
  "isWildcarded \<lparr>mn_type = ''LightningComponentBundle'', mn_componentName = Some ''Gh*''\<rparr>"
  "\<not> isWildcarded \<lparr>mn_type = ''LightningComponentBundle'', mn_componentName = None\<rparr>"
  by (simp_all add: isWildcarded_def startsWith_def)

text \<open>
  C4 at the request \<^verbatim>\<open>LightningComponentBundle:Ghost\<close> given twice, with no component
  discovered: the set of requested components holds two objects, at two addresses, with
  the same type and name, and the classifier returns two skip records.
\<close>

theorem duplicate_identifier_is_reported_twice:
  "parseRequestedComponents exampleRegistry
       [''LightningComponentBundle:Ghost'', ''LightningComponentBundle:Ghost'']
     = [(0, \<lparr>mn_type = ''LightningComponentBundle'', mn_componentName = Some ''Ghost''\<rparr>),
        (1, \<lparr>mn_type = ''LightningComponentBundle'', mn_componentName = Some ''Ghost''\<rparr>)]
   \<and> getComponentsToSkip exampleRegistry []
       [''LightningComponentBundle:Ghost'', ''LightningComponentBundle:Ghost'']
     = [\<lparr>st_type = ''LightningComponentBundle'', st_componentName = Some ''Ghost'',
          st_message = Some ''Not found in source project''\<rparr>,
        \<lparr>st_type = ''LightningComponentBundle'', st_componentName = Some ''Ghost'',
          st_message = Some ''Not found in source project''\<rparr>]"
  by (simp add: getComponentsToSkip_def parseRequestedComponents_def example_parse example_wildcarded
      set_add_def diffRequestedComponents_def diffOne_def filterComponents_def filterOne_def
      lookupRequested_def getExistingSourceComponentNames_def createSourceComponentMap_def
      skipRecord_def)

text \<open>
  C5 as stated fails for a name that is exactly \<^verbatim>\<open>all\<close>: it is a name like any
  other, and with no component of that name it gets a skip record.
\<close>

theorem name_all_counterexample:
  "parseMetadataEntry exampleRegistry ''LightningComponentBundle:all''
     = Some \<lparr>mn_type = ''LightningComponentBundle'', mn_componentName = Some ''all''\<rparr>
   \<and> getComponentsToSkip exampleRegistry [] [''LightningComponentBundle:all'']
     = [\<lparr>st_type = ''LightningComponentBundle'', st_componentName = Some ''all'',
          st_message = Some ''Not found in source project''\<rparr>]"
  by (simp add: getComponentsToSkip_def parseRequestedComponents_def example_parse example_wildcarded
      set_add_def diffRequestedComponents_def diffOne_def filterComponents_def filterOne_def
      lookupRequested_def getExistingSourceComponentNames_def createSourceComponentMap_def
      skipRecord_def)

theorem wildcard_identifier_is_ignored_witness:
  "filter (\<lambda>e. \<not> isWildcardEntry exampleRegistry e)
       [''LightningComponentBundle:*'', ''LightningComponentBundle'',
        ''LightningComponentBundle:Gh*'', ''LightningComponentBundle:Ghost'']
     = [''LightningComponentBundle:Ghost'']
   \<and> getComponentsToSkip exampleRegistry [exampleComponent ''alpha'']
       [''LightningComponentBundle:*'', ''LightningComponentBundle'',
        ''LightningComponentBundle:Gh*'', ''LightningComponentBundle:Ghost'']
     = getComponentsToSkip exampleRegistry [exampleComponent ''alpha''] [''LightningComponentBundle:Ghost'']
   \<and> getComponentsToSkip exampleRegistry [exampleComponent ''alpha''] [''LightningComponentBundle:Ghost'']
     = [\<lparr>st_type = ''LightningComponentBundle'', st_componentName = Some ''Ghost'',
          st_message = Some ''Not found in source project''\<rparr>]"
proof -
  have named: "filter (\<lambda>e. \<not> isWildcardEntry exampleRegistry e)
       [''LightningComponentBundle:*'', ''LightningComponentBundle'',
        ''LightningComponentBundle:Gh*'', ''LightningComponentBundle:Ghost'']
     = [''LightningComponentBundle:Ghost'']"
    by (simp add: isWildcardEntry_def example_parse example_wildcarded)
  have ghost: "getComponentsToSkip exampleRegistry [exampleComponent ''alpha''] [''LightningComponentBundle:Ghost'']
     = [\<lparr>st_type = ''LightningComponentBundle'', st_componentName = Some ''Ghost'',
          st_message = Some ''Not found in source project''\<rparr>]"
    by (simp add: getComponentsToSkip_def parseRequestedComponents_def example_parse example_wildcarded
        set_add_def diffRequestedComponents_def diffOne_def filterComponents_def filterOne_def
        lookupRequested_def getExistingSourceComponentNames_def createSourceComponentMap_def
        skipRecord_def truthyName_def componentNameOf_def exampleComponent_def)
  show ?thesis
    using wildcard_identifier_is_ignored [of exampleRegistry "[exampleComponent ''alpha'']"
        "[''LightningComponentBundle:*'', ''LightningComponentBundle'',
          ''LightningComponentBundle:Gh*'', ''LightningComponentBundle:Ghost'']"]
    by (simp only: named ghost simp_thms)
qed

end
